theory Spec2Isabelle
  imports Complex_Main "HOL-Library.AList"
begin

section \<open>JavaScript values\<close>

text \<open>
  The values the server code of \<^verbatim>\<open>src/protected/js/chat.js\<close> handles: what
  \<^verbatim>\<open>JSON.parse\<close> returns (null, booleans, numbers, strings, arrays, objects), and
  \<^verbatim>\<open>undefined\<close>, which reading a missing property yields. An object is the list of
  its own properties with their values; a property read finds the value by the key, the
  order plays no part in it. A number is kept as an exact rational: the code never
  computes with a parsed number, it only tests it for truthiness.
\<close>

datatype jsval =
    Undefined
  | Null
  | Bool bool
  | Num rat
  | Str string
  | Arr "jsval list"
  | Obj "(string \<times> jsval) list"

datatype error =
    Error string   \<comment> \<open>\<^verbatim>\<open>new Error(message)\<close>\<close>
  | SyntaxError    \<comment> \<open>thrown by \<^verbatim>\<open>JSON.parse\<close>; the message the runtime writes is not recorded\<close>
  | TypeError      \<comment> \<open>thrown by a property read on \<^verbatim>\<open>null\<close> or \<^verbatim>\<open>undefined\<close>\<close>

text \<open>\<^verbatim>\<open>null\<close> and \<^verbatim>\<open>undefined\<close> are the two values a property read throws on.\<close>

fun nullish :: "jsval \<Rightarrow> bool" where
  "nullish Undefined = True"
| "nullish Null = True"
| "nullish _ = False"

text \<open>
  The value of \<^verbatim>\<open>v.k\<close> for a value that is not nullish, for the property names
  the code reads (\<^verbatim>\<open>nodes\<close>, \<^verbatim>\<open>steps\<close>, \<^verbatim>\<open>id\<close>, \<^verbatim>\<open>title\<close>, \<^verbatim>\<open>description\<close>,
  \<^verbatim>\<open>duration\<close>, \<^verbatim>\<open>resources\<close>, \<^verbatim>\<open>estimatedTotalDuration\<close>, \<^verbatim>\<open>difficulty\<close>,
  \<^verbatim>\<open>category\<close>): none of them is defined by a prototype, so an object yields its own
  property or \<^verbatim>\<open>undefined\<close>, and a primitive or an array yields \<^verbatim>\<open>undefined\<close>. The
  theorems read the objects the code has built in the same way.
\<close>

fun property :: "jsval \<Rightarrow> string \<Rightarrow> jsval" where
  "property (Obj kvs) k = (case map_of kvs k of Some v \<Rightarrow> v | None \<Rightarrow> Undefined)"
| "property _ k = Undefined"

text \<open>The property read \<^verbatim>\<open>v.k\<close>, with its TypeError.\<close>

definition get :: "jsval \<Rightarrow> string \<Rightarrow> error + jsval" where
  "get v k = (if nullish v then Inl TypeError else Inr (property v k))"

fun isArray :: "jsval \<Rightarrow> bool" where
  "isArray (Arr xs) = True"
| "isArray _ = False"

text \<open>\<^verbatim>\<open>typeof v === 'string'\<close>\<close>

fun isString :: "jsval \<Rightarrow> bool" where
  "isString (Str s) = True"
| "isString _ = False"

text \<open>ToBoolean: the falsy values are undefined, null, false, zero and the empty string.\<close>

fun truthy :: "jsval \<Rightarrow> bool" where
  "truthy Undefined = False"
| "truthy Null = False"
| "truthy (Bool b) = b"
| "truthy (Num n) = (n \<noteq> 0)"
| "truthy (Str s) = (s \<noteq> [])"
| "truthy (Arr xs) = True"
| "truthy (Obj kvs) = True"

text \<open>\<^verbatim>\<open>a || b\<close> for operands already evaluated (\<open>b\<close> is a literal wherever the code uses it).\<close>

definition or_else :: "jsval \<Rightarrow> jsval \<Rightarrow> jsval" where
  "or_else a b = (if truthy a then a else b)"

text \<open>The decimal digits of a natural number, as a template literal prints \<^verbatim>\<open>${i + 1}\<close>.\<close>

definition digit_char :: "nat \<Rightarrow> char" where
  "digit_char d = char_of (48 + d)"

fun nat_to_string :: "nat \<Rightarrow> string" where
  "nat_to_string n =
     (if n < 10 then [digit_char n] else nat_to_string (n div 10) @ [digit_char (n mod 10)])"

declare nat_to_string.simps [simp del]

section \<open>The Roadmap Normalizer\<close>

text \<open>
  \<^verbatim>\<open>normalizeRoadmap\<close>, \<^verbatim>\<open>src/protected/js/chat.js\<close> lines 273 to 303.

  The callback of \<^verbatim>\<open>raw.steps.map\<close>, for the entry \<open>s\<close> at index \<open>i\<close>:
  \<^verbatim>\<open>
  (s, i) => ({
      id: `step_${i + 1}`,
      title: typeof s === 'string' ? s : s.title || `Step ${i + 1}`,
      description: s.description || '',
      duration: s.duration || '',
      type: 'task',
      resources: s.resources || []
  })
  \<close>
  Every property read of it is on \<open>s\<close>, so it throws exactly when \<open>s\<close> is nullish.
\<close>

definition step_of :: "jsval \<Rightarrow> nat \<Rightarrow> error + jsval" where
  "step_of s i =
     (case (if isString s then Inr s
            else (case get s ''title'' of Inl e \<Rightarrow> Inl e
                  | Inr t \<Rightarrow> Inr (or_else t (Str (''Step '' @ nat_to_string (i + 1)))))) of
        Inl e \<Rightarrow> Inl e
      | Inr title \<Rightarrow>
     (case get s ''description'' of Inl e \<Rightarrow> Inl e | Inr d \<Rightarrow>
     (case get s ''duration'' of Inl e \<Rightarrow> Inl e | Inr u \<Rightarrow>
     (case get s ''resources'' of Inl e \<Rightarrow> Inl e | Inr r \<Rightarrow>
        Inr (Obj [(''id'', Str (''step_'' @ nat_to_string (i + 1))),
                  (''title'', title),
                  (''description'', or_else d (Str [])),
                  (''duration'', or_else u (Str [])),
                  (''type'', Str ''task''),
                  (''resources'', or_else r (Arr []))])))))"

text \<open>\<^verbatim>\<open>steps.map(callback)\<close>: the entries in order from index \<open>i\<close>, stopping at the first throw.\<close>

fun map_steps :: "nat \<Rightarrow> jsval list \<Rightarrow> error + jsval list" where
  "map_steps i [] = Inr []"
| "map_steps i (s # ss) =
     (case step_of s i of Inl e \<Rightarrow> Inl e
      | Inr n \<Rightarrow> (case map_steps (i + 1) ss of Inl e \<Rightarrow> Inl e | Inr ns \<Rightarrow> Inr (n # ns)))"

text \<open>
  The node list, lines 274 to 283: \<^verbatim>\<open>raw.nodes\<close> when it is an array, else the mapped
  \<^verbatim>\<open>raw.steps\<close> when that is an array, else the empty list.
\<close>

definition resolve_nodes :: "jsval \<Rightarrow> error + jsval list" where
  "resolve_nodes raw =
     (case get raw ''nodes'' of Inl e \<Rightarrow> Inl e
      | Inr ns \<Rightarrow>
         (case ns of Arr xs \<Rightarrow> Inr xs
          | _ \<Rightarrow>
             (case get raw ''steps'' of Inl e \<Rightarrow> Inl e
              | Inr ss \<Rightarrow> (case ss of Arr ys \<Rightarrow> map_steps 0 ys | _ \<Rightarrow> Inr []))))"

text \<open>
  The loop of lines 285 to 292, \<open>i\<close> the loop counter and \<open>edges\<close> the array pushed to:
  \<^verbatim>\<open>
  for (let i = 0; i < nodes.length - 1; i++) {
      edges.push({ source: nodes[i].id, target: nodes[i + 1].id, label: 'Then' });
  }
  \<close>
  The bound \<^verbatim>\<open>nodes.length - 1\<close> is \<open>-1\<close> for the empty list, hence the integers.
\<close>

function edges_loop :: "jsval list \<Rightarrow> nat \<Rightarrow> jsval list \<Rightarrow> error + jsval list" where
  "edges_loop nodes i edges =
     (if int i < int (length nodes) - 1 then
        (case get (nodes ! i) ''id'' of Inl e \<Rightarrow> Inl e
         | Inr s \<Rightarrow>
            (case get (nodes ! (i + 1)) ''id'' of Inl e \<Rightarrow> Inl e
             | Inr t \<Rightarrow>
                edges_loop nodes (i + 1)
                  (edges @ [Obj [(''source'', s), (''target'', t), (''label'', Str ''Then'')]])))
      else Inr edges)"
  by pat_completeness auto
termination
  by (relation "measure (\<lambda>(nodes, i, edges). length nodes - i)") auto

declare edges_loop.simps [simp del]

text \<open>
  The function itself. The object literal it returns reads \<^verbatim>\<open>raw.title\<close> and the other
  scalar fields after \<^verbatim>\<open>raw.nodes\<close> has been read, so on a \<open>raw\<close> that is not nullish.
\<close>

definition normalizeRoadmap :: "jsval \<Rightarrow> error + jsval" where
  "normalizeRoadmap raw =
     (case resolve_nodes raw of Inl e \<Rightarrow> Inl e
      | Inr nodes \<Rightarrow>
         (case edges_loop nodes 0 [] of Inl e \<Rightarrow> Inl e
          | Inr edges \<Rightarrow>
             Inr (Obj [(''title'', or_else (property raw ''title'') (Str ''AI Generated Roadmap'')),
                       (''description'', or_else (property raw ''description'') (Str [])),
                       (''nodes'', Arr nodes),
                       (''edges'', Arr edges),
                       (''estimatedTotalDuration'',
                          or_else (property raw ''estimatedTotalDuration'') (Str [])),
                       (''difficulty'', or_else (property raw ''difficulty'') (Str ''beginner'')),
                       (''category'', or_else (property raw ''category'') (Str ''general''))])))"

section \<open>The Response Repairer\<close>

text \<open>
  \<^verbatim>\<open>repairJson\<close>, \<^verbatim>\<open>src/protected/js/chat.js\<close> lines 263 to 271:
  \<^verbatim>\<open>
  function repairJson(text) {
      try {
          return JSON.parse(text);
      } catch (_) {
          const match = text.match(/\{[\s\S]*\}/);
          if (!match) throw new Error('No JSON found');
          return JSON.parse(match[0]);
      }
  }
  \<close>

  The regular expression is matched as a backtracking matcher does. \<open>star_then_close\<close>
  matches \<^verbatim>\<open>[\s\S]*\}\<close> at the head of its input: the greedy star takes the next
  character, whichever it is, and tries the rest; only when that fails does it stop and
  let \<^verbatim>\<open>\}\<close> match the character. \<open>regex_match\<close> tries the start positions from
  the left and returns \<^verbatim>\<open>match[0]\<close> of the first that matches.
\<close>

fun star_then_close :: "string \<Rightarrow> string option" where
  "star_then_close [] = None"
| "star_then_close (c # cs) =
     (case star_then_close cs of
        Some m \<Rightarrow> Some (c # m)
      | None \<Rightarrow> if c = CHR ''}'' then Some [c] else None)"

fun regex_match :: "string \<Rightarrow> string option" where
  "regex_match [] = None"
| "regex_match (c # cs) =
     (if c = CHR ''{'' then
        (case star_then_close cs of
           Some m \<Rightarrow> Some (c # m)
         | None \<Rightarrow> regex_match cs)
      else regex_match cs)"

text \<open>
  \<^verbatim>\<open>JSON.parse\<close> belongs to the JavaScript runtime, not to the repository, so
  \<open>repairJson\<close> takes it as the parameter \<open>parse\<close>: \<open>None\<close> stands for its SyntaxError,
  which \<open>repairJson\<close> lets through when the span does not parse. What that error says
  is the runtime's matter and is left open here.
\<close>

definition repairJson :: "(string \<Rightarrow> jsval option) \<Rightarrow> string \<Rightarrow> error + jsval" where
  "repairJson parse text =
     (case parse text of
        Some v \<Rightarrow> Inr v
      | None \<Rightarrow>
         (case regex_match text of
            None \<Rightarrow> Inl (Error ''No JSON found'')
          | Some m \<Rightarrow> (case parse m of Some v \<Rightarrow> Inr v | None \<Rightarrow> Inl SyntaxError)))"

section \<open>The generate-roadmap handler\<close>

text \<open>
  \<^verbatim>\<open>POST /api/generate-roadmap\<close>, \<^verbatim>\<open>src/protected/js/chat.js\<close> lines 429 to 444, from the
  point where the text generation has returned \<open>aiText\<close>:
  \<^verbatim>\<open>
  try {
      ...
      const parsed = repairJson(aiText);
      const roadmap = normalizeRoadmap(parsed);
      if (roadmap.nodes.length === 0) {
          throw new Error('AI returned no usable steps');
      }
      res.json({ roadmap });
  } catch (err) {
      res.status(500).json({ error: err.message });
  }
  \<close>
  \<open>Sent body\<close> is \<^verbatim>\<open>res.json(body)\<close>; \<open>Failed 500 err\<close> is the answer of the catch block
  for the caught \<open>err\<close>.
\<close>

datatype response = Sent jsval | Failed nat error

text \<open>
  \<^verbatim>\<open>v.length === 0\<close>: arrays and strings have a length, an object has the \<^verbatim>\<open>length\<close>
  it was given, if any, and numbers and booleans have none.
\<close>

fun length_is_zero :: "jsval \<Rightarrow> error + bool" where
  "length_is_zero Undefined = Inl TypeError"
| "length_is_zero Null = Inl TypeError"
| "length_is_zero (Arr xs) = Inr (length xs = 0)"
| "length_is_zero (Str s) = Inr (length s = 0)"
| "length_is_zero (Obj kvs) = Inr (property (Obj kvs) ''length'' = Num 0)"
| "length_is_zero _ = Inr False"

definition generate_roadmap :: "(string \<Rightarrow> jsval option) \<Rightarrow> string \<Rightarrow> response" where
  "generate_roadmap parse aiText =
     (case repairJson parse aiText of
        Inl err \<Rightarrow> Failed 500 err
      | Inr parsed \<Rightarrow>
         (case normalizeRoadmap parsed of
            Inl err \<Rightarrow> Failed 500 err
          | Inr roadmap \<Rightarrow>
             (case length_is_zero (property roadmap ''nodes'') of
                Inl err \<Rightarrow> Failed 500 err
              | Inr True \<Rightarrow> Failed 500 (Error ''AI returned no usable steps'')
              | Inr False \<Rightarrow> Sent (Obj [(''roadmap'', roadmap)]))))"

section \<open>A model of the runtime's JSON functions\<close>

text \<open>
  The theorems on \<open>repairJson\<close> hold for every \<open>parse\<close>. To run the repairer and the
  handler on a given text, \<open>JSON_parse\<close> follows the JSON grammar (ECMA-404) on texts of
  8-bit characters: it rejects what \<^verbatim>\<open>JSON.parse\<close> rejects and builds the value it
  builds, with three exceptions. An escape \<^verbatim>\<open>\uXXXX\<close> above \<^verbatim>\<open>\u00FF\<close> has no 8-bit
  character and is refused. A number is the exact rational its literal denotes, where the
  runtime rounds to a double (so a literal too small for a double is zero there and not
  here). And the members of an object stay in the order of the text, where the runtime
  lists keys that are array indices first. The closed theorems below use it on ASCII
  texts that none of the three touches.
\<close>

text \<open>Whitespace between tokens: space, line feed, carriage return, tab.\<close>

definition is_ws :: "char \<Rightarrow> bool" where
  "is_ws c = (c = CHR 0x20 \<or> c = CHR 0x0A \<or> c = CHR 0x0D \<or> c = CHR 0x09)"

definition skip_ws :: "string \<Rightarrow> string" where
  "skip_ws s = dropWhile is_ws s"

text \<open>Characters are told apart by their code: \<open>48\<close> to \<open>57\<close> are the decimal digits.\<close>

definition is_digit :: "char \<Rightarrow> bool" where
  "is_digit c = (48 \<le> (of_char c :: nat) \<and> (of_char c :: nat) \<le> 57)"

definition digit_val :: "char \<Rightarrow> nat" where
  "digit_val c = of_char c - 48"

definition digits_val :: "string \<Rightarrow> nat" where
  "digits_val ds = foldl (\<lambda>a c. 10 * a + digit_val c) 0 ds"

definition hex_val :: "char \<Rightarrow> nat option" where
  "hex_val c =
     (let n = (of_char c :: nat) in
      if 48 \<le> n \<and> n \<le> 57 then Some (n - 48)
      else if 65 \<le> n \<and> n \<le> 70 then Some (n - 55)
      else if 97 \<le> n \<and> n \<le> 102 then Some (n - 87)
      else None)"

text \<open>The character after a backslash in a string literal, and the escape \<^verbatim>\<open>\uXXXX\<close>.\<close>

definition unescape :: "char \<Rightarrow> char option" where
  "unescape e =
     (if e = CHR 0x22 then Some (CHR 0x22)
      else if e = CHR 0x5C then Some (CHR 0x5C)
      else if e = CHR ''/'' then Some (CHR ''/'')
      else if e = CHR ''b'' then Some (CHR 0x08)
      else if e = CHR ''f'' then Some (CHR 0x0C)
      else if e = CHR ''n'' then Some (CHR 0x0A)
      else if e = CHR ''r'' then Some (CHR 0x0D)
      else if e = CHR ''t'' then Some (CHR 0x09)
      else None)"

definition unicode_escape :: "string \<Rightarrow> char option" where
  "unicode_escape hs =
     (case map hex_val hs of
        [Some a, Some b, Some c, Some d] \<Rightarrow>
          (if a = 0 \<and> b = 0 then Some (char_of (16 * c + d)) else None)
      | _ \<Rightarrow> None)"

text \<open>
  The rest of a string literal after its opening quote: the string, and the text after the
  closing quote. Control characters must be escaped.
\<close>

fun string_body :: "string \<Rightarrow> (string \<times> string) option" where
  "string_body [] = None"
| "string_body (c # cs) =
     (if c = CHR 0x22 then Some ([], cs)
      else if c = CHR 0x5C then
        (case cs of
           [] \<Rightarrow> None
         | e # r \<Rightarrow>
            (if e = CHR ''u'' then
               (case unicode_escape (take 4 r) of
                  None \<Rightarrow> None
                | Some ch \<Rightarrow>
                   (case string_body (drop 4 r) of
                      None \<Rightarrow> None
                    | Some (s, rest) \<Rightarrow> Some (ch # s, rest)))
             else
               (case unescape e of
                  None \<Rightarrow> None
                | Some ch \<Rightarrow>
                   (case string_body r of
                      None \<Rightarrow> None
                    | Some (s, rest) \<Rightarrow> Some (ch # s, rest)))))
      else if (of_char c :: nat) < 32 then None
      else (case string_body cs of
              None \<Rightarrow> None
            | Some (s, rest) \<Rightarrow> Some (c # s, rest)))"

text \<open>
  A number literal: an optional minus, \<^verbatim>\<open>0\<close> or digits not starting with \<^verbatim>\<open>0\<close>, an
  optional fraction, an optional exponent.
\<close>

definition parse_number :: "string \<Rightarrow> (jsval \<times> string) option" where
  "parse_number s =
     (let neg = (take 1 s = ''-'');
          s1 = (if neg then drop 1 s else s);
          ip = (if take 1 s1 = ''0'' then ''0'' else takeWhile is_digit s1);
          s2 = drop (length ip) s1;
          has_frac = (take 1 s2 = ''.'');
          fp = (if has_frac then takeWhile is_digit (drop 1 s2) else []);
          s3 = (if has_frac then drop (1 + length fp) s2 else s2);
          has_exp = (take 1 s3 = ''e'' \<or> take 1 s3 = ''E'');
          s4 = (if has_exp then drop 1 s3 else s3);
          eneg = (has_exp \<and> take 1 s4 = ''-'');
          s5 = (if has_exp \<and> (take 1 s4 = ''-'' \<or> take 1 s4 = ''+'') then drop 1 s4 else s4);
          ep = (if has_exp then takeWhile is_digit s5 else []);
          s6 = drop (length ep) s5;
          mant = (of_nat (digits_val ip) + of_nat (digits_val fp) / 10 ^ length fp :: rat);
          scaled = (if eneg then mant / 10 ^ digits_val ep else mant * 10 ^ digits_val ep)
      in if ip = [] \<or> (has_frac \<and> fp = []) \<or> (has_exp \<and> ep = []) then None
         else Some (Num (if neg then - scaled else scaled), s6))"

text \<open>
  Values, the elements of an array after \<^verbatim>\<open>[\<close> or a comma, and the members of an
  object after \<^verbatim>\<open>{\<close> or a comma. The first argument bounds the depth of the calls still
  allowed: of two calls in a row at least one consumes a character, so \<open>JSON_parse\<close>
  starts from twice the length of the text and two more. A member whose key is already there replaces the value in place, as
  the runtime does.
\<close>

fun parse_value :: "nat \<Rightarrow> string \<Rightarrow> (jsval \<times> string) option"
and parse_elements :: "nat \<Rightarrow> jsval list \<Rightarrow> string \<Rightarrow> (jsval \<times> string) option"
and parse_members :: "nat \<Rightarrow> (string \<times> jsval) list \<Rightarrow> string \<Rightarrow> (jsval \<times> string) option"
where
  "parse_value 0 s = None"
| "parse_value (Suc f) s =
     (case skip_ws s of
        [] \<Rightarrow> None
      | c # cs \<Rightarrow>
         (if c = CHR ''{'' then
            (case skip_ws cs of
               [] \<Rightarrow> None
             | d # ds \<Rightarrow> if d = CHR ''}'' then Some (Obj [], ds) else parse_members f [] (d # ds))
          else if c = CHR ''['' then
            (case skip_ws cs of
               [] \<Rightarrow> None
             | d # ds \<Rightarrow> if d = CHR '']'' then Some (Arr [], ds) else parse_elements f [] (d # ds))
          else if c = CHR 0x22 then
            (case string_body cs of None \<Rightarrow> None | Some (str, rest) \<Rightarrow> Some (Str str, rest))
          else if take 4 (c # cs) = ''true'' then Some (Bool True, drop 4 (c # cs))
          else if take 5 (c # cs) = ''false'' then Some (Bool False, drop 5 (c # cs))
          else if take 4 (c # cs) = ''null'' then Some (Null, drop 4 (c # cs))
          else parse_number (c # cs)))"
| "parse_elements 0 acc s = None"
| "parse_elements (Suc f) acc s =
     (case parse_value f s of
        None \<Rightarrow> None
      | Some (v, rest) \<Rightarrow>
         (case skip_ws rest of
            [] \<Rightarrow> None
          | c # cs \<Rightarrow>
             if c = CHR '','' then parse_elements f (acc @ [v]) cs
             else if c = CHR '']'' then Some (Arr (acc @ [v]), cs)
             else None))"
| "parse_members 0 acc s = None"
| "parse_members (Suc f) acc s =
     (case skip_ws s of
        [] \<Rightarrow> None
      | c # cs \<Rightarrow>
         if c \<noteq> CHR 0x22 then None
         else
           (case string_body cs of
              None \<Rightarrow> None
            | Some (k, r1) \<Rightarrow>
               (case skip_ws r1 of
                  [] \<Rightarrow> None
                | c2 # r2 \<Rightarrow>
                   if c2 \<noteq> CHR '':'' then None
                   else
                     (case parse_value f r2 of
                        None \<Rightarrow> None
                      | Some (v, r3) \<Rightarrow>
                         (case skip_ws r3 of
                            [] \<Rightarrow> None
                          | c3 # r4 \<Rightarrow>
                             if c3 = CHR '','' then parse_members f (AList.update k v acc) r4
                             else if c3 = CHR ''}'' then Some (Obj (AList.update k v acc), r4)
                             else None)))))"

definition JSON_parse :: "string \<Rightarrow> jsval option" where
  "JSON_parse text =
     (case parse_value (2 * length text + 2) text of
        None \<Rightarrow> None
      | Some (v, rest) \<Rightarrow> if skip_ws rest = [] then Some v else None)"

text \<open>
  \<open>JSON_stringify\<close> prints a value as compact JSON text, as \<^verbatim>\<open>JSON.stringify\<close> does: a
  property whose value is \<^verbatim>\<open>undefined\<close> is left out, an \<^verbatim>\<open>undefined\<close> array element is
  printed as \<^verbatim>\<open>null\<close>, and \<^verbatim>\<open>undefined\<close> itself has no text (the empty string here). A
  number is printed as its exact decimal expansion; the runtime prints the shortest
  decimal that reads back as the same number, and switches to exponent notation for very
  large and very small ones.
\<close>

definition hex_digit :: "nat \<Rightarrow> char" where
  "hex_digit n = (if n < 10 then char_of (48 + n) else char_of (87 + n))"

definition escape_char :: "char \<Rightarrow> string" where
  "escape_char c =
     (if c = CHR 0x22 then [CHR 0x5C, CHR 0x22]
      else if c = CHR 0x5C then [CHR 0x5C, CHR 0x5C]
      else if c = CHR 0x08 then [CHR 0x5C, CHR ''b'']
      else if c = CHR 0x0C then [CHR 0x5C, CHR ''f'']
      else if c = CHR 0x0A then [CHR 0x5C, CHR ''n'']
      else if c = CHR 0x0D then [CHR 0x5C, CHR ''r'']
      else if c = CHR 0x09 then [CHR 0x5C, CHR ''t'']
      else if (of_char c :: nat) < 32 then
        [CHR 0x5C, CHR ''u'', CHR ''0'', CHR ''0'',
         hex_digit (of_char c div 16), hex_digit (of_char c mod 16)]
      else [c])"

definition quote :: "string \<Rightarrow> string" where
  "quote s = CHR 0x22 # concat (map escape_char s) @ [CHR 0x22]"

fun frac_digits :: "nat \<Rightarrow> nat \<Rightarrow> nat \<Rightarrow> string" where
  "frac_digits 0 r d = []"
| "frac_digits (Suc f) r d =
     (if r = 0 then [] else digit_char (r * 10 div d) # frac_digits f (r * 10 mod d) d)"

definition number_to_string :: "rat \<Rightarrow> string" where
  "number_to_string q =
     (let (a, b) = quotient_of q; n = nat \<bar>a\<bar>; d = nat b
      in (if a < 0 then ''-'' else []) @ nat_to_string (n div d) @
         (if n mod d = 0 then [] else CHR ''.'' # frac_digits d (n mod d) d))"

fun join :: "string list \<Rightarrow> string" where
  "join [] = []"
| "join [x] = x"
| "join (x # y # ys) = x @ CHR '','' # join (y # ys)"

primrec JSON_stringify :: "jsval \<Rightarrow> string" where
  "JSON_stringify Undefined = []"
| "JSON_stringify Null = ''null''"
| "JSON_stringify (Bool b) = (if b then ''true'' else ''false'')"
| "JSON_stringify (Num q) = number_to_string q"
| "JSON_stringify (Str s) = quote s"
| "JSON_stringify (Arr xs) =
     CHR ''['' # join (map (\<lambda>t. if t = [] then ''null'' else t) (map JSON_stringify xs)) @ '']''"
| "JSON_stringify (Obj kvs) =
     CHR ''{'' # join (map (\<lambda>(k, t). quote k @ CHR '':'' # t)
                        (filter (\<lambda>(k, t). t \<noteq> []) (map (map_prod id JSON_stringify) kvs))) @ ''}''"

text \<open>
  What a value becomes when it is sent as JSON and parsed again: a property whose value
  is \<^verbatim>\<open>undefined\<close> is gone, an \<^verbatim>\<open>undefined\<close> array element is \<^verbatim>\<open>null\<close>. \<open>is_json\<close> holds
  of the values \<^verbatim>\<open>JSON.parse\<close> can return, those with no \<^verbatim>\<open>undefined\<close> inside.
\<close>

fun json_view :: "jsval \<Rightarrow> jsval"
and json_view_elements :: "jsval list \<Rightarrow> jsval list"
and json_view_members :: "(string \<times> jsval) list \<Rightarrow> (string \<times> jsval) list"
where
  "json_view (Arr xs) = Arr (json_view_elements xs)"
| "json_view (Obj kvs) = Obj (json_view_members kvs)"
| "json_view v = v"
| "json_view_elements [] = []"
| "json_view_elements (x # xs) =
     (if x = Undefined then Null else json_view x) # json_view_elements xs"
| "json_view_members [] = []"
| "json_view_members ((k, v) # kvs) =
     (if v = Undefined then json_view_members kvs else (k, json_view v) # json_view_members kvs)"

fun is_json :: "jsval \<Rightarrow> bool"
and are_json :: "jsval list \<Rightarrow> bool"
and members_json :: "(string \<times> jsval) list \<Rightarrow> bool"
where
  "is_json Undefined = False"
| "is_json (Arr xs) = are_json xs"
| "is_json (Obj kvs) = members_json kvs"
| "is_json v = True"
| "are_json [] = True"
| "are_json (x # xs) = (is_json x \<and> are_json xs)"
| "members_json [] = True"
| "members_json ((k, v) # kvs) = (is_json v \<and> members_json kvs)"

section \<open>The shape of the results\<close>

text \<open>
  The edge the loop pushes for two neighbouring nodes once both reads of \<^verbatim>\<open>id\<close> have
  succeeded, and the chain of these edges over a node list from index \<open>i\<close> on.
\<close>

definition edge_between :: "jsval \<Rightarrow> jsval \<Rightarrow> jsval" where
  "edge_between a b =
     Obj [(''source'', property a ''id''), (''target'', property b ''id''),
          (''label'', Str ''Then'')]"

definition chain_from :: "jsval list \<Rightarrow> nat \<Rightarrow> jsval list" where
  "chain_from nodes i =
     map (\<lambda>k. edge_between (nodes ! k) (nodes ! (k + 1))) [i..<length nodes - 1]"

text \<open>The canonical Step the callback builds from an entry that is not nullish.\<close>

definition canonical_step :: "jsval \<Rightarrow> nat \<Rightarrow> jsval" where
  "canonical_step s i =
     Obj [(''id'', Str (''step_'' @ nat_to_string (i + 1))),
          (''title'', if isString s then s
                      else or_else (property s ''title'') (Str (''Step '' @ nat_to_string (i + 1)))),
          (''description'', or_else (property s ''description'') (Str [])),
          (''duration'', or_else (property s ''duration'') (Str [])),
          (''type'', Str ''task''),
          (''resources'', or_else (property s ''resources'') (Arr []))]"

text \<open>The scalar fields of a Roadmap with their documented defaults.\<close>

definition scalar_defaults :: "(string \<times> string) list" where
  "scalar_defaults =
     [(''title'', ''AI Generated Roadmap''), (''description'', []),
      (''estimatedTotalDuration'', []), (''difficulty'', ''beginner''),
      (''category'', ''general'')]"

text \<open>The Roadmap the function returns for the input \<open>raw\<close> once the node list is \<open>nodes\<close>.\<close>

definition roadmap_of :: "jsval \<Rightarrow> jsval list \<Rightarrow> jsval" where
  "roadmap_of raw nodes =
     Obj [(''title'', or_else (property raw ''title'') (Str ''AI Generated Roadmap'')),
          (''description'', or_else (property raw ''description'') (Str [])),
          (''nodes'', Arr nodes),
          (''edges'', Arr (chain_from nodes 0)),
          (''estimatedTotalDuration'', or_else (property raw ''estimatedTotalDuration'') (Str [])),
          (''difficulty'', or_else (property raw ''difficulty'') (Str ''beginner'')),
          (''category'', or_else (property raw ''category'') (Str ''general''))]"

section \<open>Example inputs\<close>

text \<open>
  The end-to-end scenario of the specification: the completion
  \<^verbatim>\<open>{"title":"Learn Go","steps":["Read docs","Build a CLI"]}\<close>, the object it parses to and
  the Roadmap expected for it.
\<close>

definition learn_go_text :: string where
  \<open>learn_go_text = ''{"title":"Learn Go","steps":["Read docs","Build a CLI"]}''\<close>

definition learn_go_parsed :: jsval where
  "learn_go_parsed =
     Obj [(''title'', Str ''Learn Go''),
          (''steps'', Arr [Str ''Read docs'', Str ''Build a CLI''])]"

definition learn_go_roadmap :: jsval where
  "learn_go_roadmap =
     Obj [(''title'', Str ''Learn Go''),
          (''description'', Str []),
          (''nodes'',
             Arr [Obj [(''id'', Str ''step_1''), (''title'', Str ''Read docs''),
                       (''description'', Str []), (''duration'', Str []),
                       (''type'', Str ''task''), (''resources'', Arr [])],
                  Obj [(''id'', Str ''step_2''), (''title'', Str ''Build a CLI''),
                       (''description'', Str []), (''duration'', Str []),
                       (''type'', Str ''task''), (''resources'', Arr [])]]),
          (''edges'',
             Arr [Obj [(''source'', Str ''step_1''), (''target'', Str ''step_2''),
                       (''label'', Str ''Then'')]]),
          (''estimatedTotalDuration'', Str []),
          (''difficulty'', Str ''beginner''),
          (''category'', Str ''general'')]"

text \<open>
  A response in the older shape, with nodes and edges of its own: the edge it supplies
  runs from \<^verbatim>\<open>b\<close> back to \<^verbatim>\<open>a\<close>.
\<close>

definition supplied_edges_parsed :: jsval where
  "supplied_edges_parsed =
     Obj [(''nodes'', Arr [Obj [(''id'', Str ''a'')], Obj [(''id'', Str ''b'')]]),
          (''edges'',
             Arr [Obj [(''source'', Str ''b''), (''target'', Str ''a''),
                       (''label'', Str ''Back'')]])]"

definition supplied_edges_roadmap :: jsval where
  "supplied_edges_roadmap =
     Obj [(''title'', Str ''AI Generated Roadmap''),
          (''description'', Str []),
          (''nodes'', Arr [Obj [(''id'', Str ''a'')], Obj [(''id'', Str ''b'')]]),
          (''edges'',
             Arr [Obj [(''source'', Str ''a''), (''target'', Str ''b''),
                       (''label'', Str ''Then'')]]),
          (''estimatedTotalDuration'', Str []),
          (''difficulty'', Str ''beginner''),
          (''category'', Str ''general'')]"

text \<open>The Roadmap of the empty object \<^verbatim>\<open>{}\<close>: every scalar field is its default.\<close>

definition default_roadmap :: jsval where
  "default_roadmap =
     Obj [(''title'', Str ''AI Generated Roadmap''),
          (''description'', Str []),
          (''nodes'', Arr []),
          (''edges'', Arr []),
          (''estimatedTotalDuration'', Str []),
          (''difficulty'', Str ''beginner''),
          (''category'', Str ''general'')]"

section \<open>Properties of the Normalizer\<close>

subsection \<open>Property reads, the edge loop and the step callback\<close>

lemma get_Inl_iff: "get v k = Inl e \<longleftrightarrow> nullish v \<and> e = TypeError"
  by (auto simp: get_def)

lemma get_Inr_iff: "get v k = Inr x \<longleftrightarrow> \<not> nullish v \<and> x = property v k"
  by (auto simp: get_def)

lemma nat_to_string_examples:
  "nat_to_string 0 = ''0''" "nat_to_string 7 = ''7''" "nat_to_string 12 = ''12''"
  "nat_to_string 305 = ''305''"
  by code_simp+

lemma chain_from_step:
  "i + 1 < length nodes \<Longrightarrow>
   chain_from nodes i = edge_between (nodes ! i) (nodes ! (i + 1)) # chain_from nodes (i + 1)"
  by (simp add: chain_from_def upt_conv_Cons)

lemma chain_from_done: "\<not> i + 1 < length nodes \<Longrightarrow> chain_from nodes i = []"
  by (simp add: chain_from_def)

lemma edges_loop_Inr:
  "edges_loop nodes i acc = Inr es \<Longrightarrow> es = acc @ chain_from nodes i"
proof (induction nodes i acc rule: edges_loop.induct)
  case (1 nodes i edges)
  show ?case
  proof (cases "i + 1 < length nodes")
    case False
    with "1.prems" show ?thesis
      by (subst (asm) edges_loop.simps) (simp add: chain_from_done)
  next
    case True
    then have c: "int i < int (length nodes) - 1" by linarith
    from "1.prems" c obtain s t where
      s: "get (nodes ! i) ''id'' = Inr s" and t: "get (nodes ! (i + 1)) ''id'' = Inr t" and
      r: "edges_loop nodes (i + 1)
            (edges @ [Obj [(''source'', s), (''target'', t), (''label'', Str ''Then'')]]) = Inr es"
      by (subst (asm) edges_loop.simps) (auto split: sum.splits)
    from "1.IH" [OF c s t r] s t show ?thesis
      by (simp add: chain_from_step [OF True] edge_between_def get_Inr_iff)
  qed
qed

lemma edges_loop_Inl: "edges_loop nodes i acc = Inl e \<Longrightarrow> e = TypeError"
proof (induction nodes i acc rule: edges_loop.induct)
  case (1 nodes i edges)
  from "1.prems" have c: "int i < int (length nodes) - 1"
    by (subst (asm) edges_loop.simps) (simp split: if_splits)
  show ?case
  proof (cases "get (nodes ! i) ''id''")
    case (Inl a)
    then have "a = TypeError" by (simp add: get_Inl_iff)
    with "1.prems" c Inl show ?thesis
      by (subst (asm) edges_loop.simps) simp
  next
    case s: (Inr s)
    show ?thesis
    proof (cases "get (nodes ! (i + 1)) ''id''")
      case (Inl a)
      then have "a = TypeError" by (simp add: get_Inl_iff)
      with "1.prems" c s Inl show ?thesis
        by (subst (asm) edges_loop.simps) simp
    next
      case t: (Inr t)
      from "1.prems" c s t have
        "edges_loop nodes (i + 1)
            (edges @ [Obj [(''source'', s), (''target'', t), (''label'', Str ''Then'')]]) = Inl e"
        by (subst (asm) edges_loop.simps) simp
      from "1.IH" [OF c s t this] show ?thesis .
    qed
  qed
qed

lemma edges_loop_total:
  "\<forall>k. i \<le> k \<and> k < length nodes \<longrightarrow> \<not> nullish (nodes ! k) \<Longrightarrow>
   edges_loop nodes i acc = Inr (acc @ chain_from nodes i)"
proof (induction nodes i acc rule: edges_loop.induct)
  case (1 nodes i edges)
  show ?case
  proof (cases "i + 1 < length nodes")
    case False
    then show ?thesis
      by (subst edges_loop.simps) (simp add: chain_from_done)
  next
    case True
    then have c: "int i < int (length nodes) - 1" by linarith
    from True "1.prems" have ni: "\<not> nullish (nodes ! i)" and nj: "\<not> nullish (nodes ! (i + 1))"
      by simp_all
    then have s: "get (nodes ! i) ''id'' = Inr (property (nodes ! i) ''id'')"
      and t: "get (nodes ! (i + 1)) ''id'' = Inr (property (nodes ! (i + 1)) ''id'')"
      by (simp_all add: get_def)
    have "\<forall>k. i + 1 \<le> k \<and> k < length nodes \<longrightarrow> \<not> nullish (nodes ! k)"
      using "1.prems" by simp
    from "1.IH" [OF c s t this] c s t show ?thesis
      by (subst edges_loop.simps) (simp add: chain_from_step [OF True] edge_between_def)
  qed
qed

lemma edges_loop_short: "length nodes \<le> 1 \<Longrightarrow> edges_loop nodes 0 [] = Inr []"
  by (subst edges_loop.simps) simp

lemma step_of_eq:
  "step_of s i = (if nullish s then Inl TypeError else Inr (canonical_step s i))"
  by (cases s) (simp_all add: step_of_def get_def canonical_step_def)

lemma map_steps_Inr:
  "map_steps i ss = Inr ns \<Longrightarrow>
   length ns = length ss \<and> (\<forall>k<length ss. ns ! k = canonical_step (ss ! k) (i + k))"
proof (induction ss arbitrary: i ns)
  case Nil
  then show ?case by simp
next
  case (Cons s ss)
  from Cons.prems obtain ms where
    s: "\<not> nullish s" and ms: "map_steps (i + 1) ss = Inr ms" and
    ns: "ns = canonical_step s i # ms"
    by (auto simp: step_of_eq split: if_splits sum.splits)
  from Cons.IH [OF ms] have
    len: "length ms = length ss" and
    el: "\<forall>k<length ss. ms ! k = canonical_step (ss ! k) (i + 1 + k)"
    by simp_all
  show ?case
  proof (intro conjI allI impI)
    show "length ns = length (s # ss)" using ns len by simp
  next
    fix k assume "k < length (s # ss)"
    then show "ns ! k = canonical_step ((s # ss) ! k) (i + k)"
      using ns el by (cases k) simp_all
  qed
qed

lemma map_steps_Inl: "map_steps i ss = Inl e \<Longrightarrow> e = TypeError"
  by (induction ss arbitrary: i) (auto simp: step_of_eq split: if_splits sum.splits)

lemma map_steps_total:
  "\<forall>s\<in>set ss. \<not> nullish s \<Longrightarrow> \<exists>ns. map_steps i ss = Inr ns"
proof (induction ss arbitrary: i)
  case Nil
  then show ?case by simp
next
  case (Cons s ss)
  then obtain ms where "map_steps (i + 1) ss = Inr ms" by fastforce
  with Cons.prems show ?case by (simp add: step_of_eq)
qed

lemma map_steps_not_nullish:
  "map_steps i ss = Inr ns \<Longrightarrow> \<forall>n\<in>set ns. \<not> nullish n"
  by (induction ss arbitrary: i ns)
     (auto simp: step_of_eq canonical_step_def split: if_splits sum.splits)

lemma normalizeRoadmap_Inr:
  assumes "normalizeRoadmap raw = Inr r"
  shows "\<exists>nodes. resolve_nodes raw = Inr nodes \<and>
           edges_loop nodes 0 [] = Inr (chain_from nodes 0) \<and> r = roadmap_of raw nodes"
proof -
  from assms obtain nodes es where
    n: "resolve_nodes raw = Inr nodes" and e: "edges_loop nodes 0 [] = Inr es" and
    r: "r = Obj [(''title'', or_else (property raw ''title'') (Str ''AI Generated Roadmap'')),
                 (''description'', or_else (property raw ''description'') (Str [])),
                 (''nodes'', Arr nodes),
                 (''edges'', Arr es),
                 (''estimatedTotalDuration'',
                    or_else (property raw ''estimatedTotalDuration'') (Str [])),
                 (''difficulty'', or_else (property raw ''difficulty'') (Str ''beginner'')),
                 (''category'', or_else (property raw ''category'') (Str ''general''))]"
    by (auto simp: normalizeRoadmap_def split: sum.splits)
  from edges_loop_Inr [OF e] have "es = chain_from nodes 0" by simp
  with n e r show ?thesis by (simp add: roadmap_of_def)
qed

lemma normalizeRoadmap_intro:
  "resolve_nodes raw = Inr nodes \<Longrightarrow> edges_loop nodes 0 [] = Inr (chain_from nodes 0) \<Longrightarrow>
   normalizeRoadmap raw = Inr (roadmap_of raw nodes)"
  by (simp add: normalizeRoadmap_def roadmap_of_def)

lemma roadmap_of_props:
  "property (roadmap_of raw nodes) ''nodes'' = Arr nodes"
  "property (roadmap_of raw nodes) ''edges'' = Arr (chain_from nodes 0)"
  "property (roadmap_of raw nodes) ''title'' =
     or_else (property raw ''title'') (Str ''AI Generated Roadmap'')"
  "property (roadmap_of raw nodes) ''description'' = or_else (property raw ''description'') (Str [])"
  "property (roadmap_of raw nodes) ''estimatedTotalDuration'' =
     or_else (property raw ''estimatedTotalDuration'') (Str [])"
  "property (roadmap_of raw nodes) ''difficulty'' =
     or_else (property raw ''difficulty'') (Str ''beginner'')"
  "property (roadmap_of raw nodes) ''category'' =
     or_else (property raw ''category'') (Str ''general'')"
  by (simp_all add: roadmap_of_def)

lemma or_else_idem: "or_else (or_else a b) b = or_else a b"
  by (simp add: or_else_def)

lemma resolve_nodes_array:
  "property raw ''nodes'' = Arr xs \<Longrightarrow> resolve_nodes raw = Inr xs"
  by (cases raw) (auto simp: resolve_nodes_def get_def)

lemma resolve_nodes_steps:
  "\<not> nullish raw \<Longrightarrow> \<not> isArray (property raw ''nodes'') \<Longrightarrow> property raw ''steps'' = Arr ss \<Longrightarrow>
   resolve_nodes raw = map_steps 0 ss"
  by (cases "property raw ''nodes''") (auto simp: resolve_nodes_def get_def)

lemma resolve_nodes_neither:
  "\<not> nullish raw \<Longrightarrow> \<not> isArray (property raw ''nodes'') \<Longrightarrow> \<not> isArray (property raw ''steps'') \<Longrightarrow>
   resolve_nodes raw = Inr []"
  by (cases "property raw ''nodes''"; cases "property raw ''steps''")
     (auto simp: resolve_nodes_def get_def)

lemma resolve_nodes_nullish: "nullish raw \<Longrightarrow> resolve_nodes raw = Inl TypeError"
  by (simp add: resolve_nodes_def get_def)

subsection \<open>What the function reads and what it returns\<close>

lemma normalize_reads:
  assumes "nullish a \<longleftrightarrow> nullish b"
    and "\<forall>k\<in>{''nodes'', ''steps'', ''title'', ''description'', ''estimatedTotalDuration'',
              ''difficulty'', ''category''}. property a k = property b k"
  shows "normalizeRoadmap a = normalizeRoadmap b"
proof -
  from assms have "get a ''nodes'' = get b ''nodes''" and "get a ''steps'' = get b ''steps''"
    by (auto simp: get_def)
  then have "resolve_nodes a = resolve_nodes b"
    unfolding resolve_nodes_def by (rule arg_cong2)
  with assms(2) show ?thesis
    by (simp add: normalizeRoadmap_def cong: sum.case_cong)
qed

lemma normalize_ignores_edges:
  "normalizeRoadmap (Obj (AList.update ''edges'' e kvs)) = normalizeRoadmap (Obj kvs)"
  by (rule normalize_reads) (simp_all add: update_conv')

lemma normalize_steps_canonical:
  assumes "\<not> isArray (property raw ''nodes'')" and "property raw ''steps'' = Arr ss"
    and "normalizeRoadmap raw = Inr r"
  shows "\<exists>ns. property r ''nodes'' = Arr ns \<and> length ns = length ss \<and>
           (\<forall>k<length ss. ns ! k = canonical_step (ss ! k) k)"
proof -
  from normalizeRoadmap_Inr [OF assms(3)] obtain ns where
    n: "resolve_nodes raw = Inr ns" and r: "r = roadmap_of raw ns"
    by blast
  from n have "\<not> nullish raw" by (auto simp: resolve_nodes_def get_def split: if_splits)
  from resolve_nodes_steps [OF this assms(1,2)] n have "map_steps 0 ss = Inr ns" by simp
  from map_steps_Inr [OF this] r show ?thesis by (simp add: roadmap_of_props)
qed

lemma canonical_step_id:
  "property (canonical_step s i) ''id'' = Str (''step_'' @ nat_to_string (i + 1))"
  by (simp add: canonical_step_def)

lemma scalar_field:
  assumes "normalizeRoadmap raw = Inr r" and "(k, d) \<in> set scalar_defaults"
  shows "property r k = or_else (property raw k) (Str d)"
proof -
  from normalizeRoadmap_Inr [OF assms(1)] obtain ns where r: "r = roadmap_of raw ns"
    by blast
  from assms(2) show ?thesis
    unfolding r scalar_defaults_def by (auto simp: roadmap_of_props)
qed

lemma or_else_cases:
  "or_else a (Str d) \<noteq> Undefined"
  "\<not> truthy a \<Longrightarrow> or_else a (Str d) = Str d"
  "truthy a \<Longrightarrow> or_else a (Str d) = a"
  "\<not> truthy a \<or> isString a \<Longrightarrow> isString (or_else a (Str d))"
  by (auto simp: or_else_def)

lemma normalize_no_steps:
  assumes "\<not> nullish raw"
    and "property raw ''nodes'' = Arr [] \<or>
         (\<not> isArray (property raw ''nodes'') \<and>
          (property raw ''steps'' = Arr [] \<or> \<not> isArray (property raw ''steps'')))"
  shows "normalizeRoadmap raw = Inr (roadmap_of raw [])"
proof -
  from assms have "resolve_nodes raw = Inr []"
    using resolve_nodes_array [of raw "[]"] resolve_nodes_steps [of raw "[]"]
      resolve_nodes_neither [of raw] by auto
  moreover have "edges_loop [] 0 [] = Inr (chain_from [] 0)"
    by (simp add: edges_loop_short chain_from_def)
  ultimately show ?thesis by (rule normalizeRoadmap_intro)
qed

lemma handler_zero_nodes:
  assumes "repairJson parse aiText = Inr parsed" and "normalizeRoadmap parsed = Inr r"
    and "property r ''nodes'' = Arr []"
  shows "generate_roadmap parse aiText = Failed 500 (Error ''AI returned no usable steps'')"
  using assms by (simp add: generate_roadmap_def)

lemma handler_sent:
  assumes "generate_roadmap parse aiText = Sent body"
  shows "\<exists>parsed r n ns. repairJson parse aiText = Inr parsed \<and> normalizeRoadmap parsed = Inr r \<and>
           property r ''nodes'' = Arr (n # ns) \<and> body = Obj [(''roadmap'', r)]"
proof -
  from assms obtain parsed r where
    p: "repairJson parse aiText = Inr parsed" and r: "normalizeRoadmap parsed = Inr r" and
    z: "length_is_zero (property r ''nodes'') = Inr False" and b: "body = Obj [(''roadmap'', r)]"
    by (auto simp: generate_roadmap_def split: sum.splits bool.splits)
  from normalizeRoadmap_Inr [OF r] obtain nodes where "property r ''nodes'' = Arr nodes"
    by (auto simp: roadmap_of_props)
  with z obtain n ns where "property r ''nodes'' = Arr (n # ns)"
    by (cases nodes) auto
  with p r b show ?thesis by blast
qed

lemma isArray_obtain: "isArray v \<Longrightarrow> \<exists>xs. v = Arr xs"
  by (cases v) simp_all

lemma normalize_returns:
  assumes "\<not> nullish raw"
    and "\<forall>xs. property raw ''nodes'' = Arr xs \<longrightarrow> (\<forall>x\<in>set xs. \<not> nullish x)"
    and "\<forall>ss. property raw ''steps'' = Arr ss \<longrightarrow> (\<forall>s\<in>set ss. \<not> nullish s)"
  shows "\<exists>nodes. normalizeRoadmap raw = Inr (roadmap_of raw nodes)"
proof -
  have "\<exists>nodes. resolve_nodes raw = Inr nodes \<and> (\<forall>n\<in>set nodes. \<not> nullish n)"
  proof (cases "isArray (property raw ''nodes'')")
    case True
    then obtain xs where xs: "property raw ''nodes'' = Arr xs"
      using isArray_obtain by blast
    with assms(2) resolve_nodes_array [OF xs] show ?thesis by simp
  next
    case no_nodes: False
    show ?thesis
    proof (cases "isArray (property raw ''steps'')")
      case True
      then obtain ss where ss: "property raw ''steps'' = Arr ss"
        using isArray_obtain by blast
      with assms(3) obtain ns where ns: "map_steps 0 ss = Inr ns"
        using map_steps_total [of ss 0] by auto
      with resolve_nodes_steps [OF assms(1) no_nodes ss] map_steps_not_nullish [OF ns]
      show ?thesis by simp
    next
      case False
      with resolve_nodes_neither [OF assms(1) no_nodes] show ?thesis by simp
    qed
  qed
  then obtain nodes where n: "resolve_nodes raw = Inr nodes"
    and nn: "\<forall>n\<in>set nodes. \<not> nullish n"
    by blast
  from nn have "edges_loop nodes 0 [] = Inr ([] @ chain_from nodes 0)"
    by (intro edges_loop_total) simp
  with n show ?thesis
    using normalizeRoadmap_intro [of raw nodes] by auto
qed

text \<open>
  What is left out above: a \<^verbatim>\<open>null\<close> input, a \<^verbatim>\<open>null\<close> entry of \<^verbatim>\<open>steps\<close>, and a
  \<^verbatim>\<open>null\<close> entry among two or more \<^verbatim>\<open>nodes\<close> make a property read throw. A TypeError
  is the only error the function raises.
\<close>

lemma normalize_throws_examples:
  "normalizeRoadmap Null = Inl TypeError"
  "normalizeRoadmap (Obj [(''steps'', Arr [Null])]) = Inl TypeError"
  "normalizeRoadmap (Obj [(''nodes'', Arr [Null, Null])]) = Inl TypeError"
  "normalizeRoadmap (Obj [(''nodes'', Arr [Null])]) =
     Inr (roadmap_of (Obj [(''nodes'', Arr [Null])]) [Null])"
  by code_simp+

lemma normalize_Inl: "normalizeRoadmap raw = Inl e \<Longrightarrow> e = TypeError"
proof -
  assume a: "normalizeRoadmap raw = Inl e"
  show ?thesis
  proof (cases "resolve_nodes raw")
    case (Inl e')
    with a have "e' = e" by (simp add: normalizeRoadmap_def)
    with Inl show ?thesis
      by (auto simp: resolve_nodes_def get_Inl_iff
          split: sum.splits jsval.splits dest: map_steps_Inl)
  next
    case (Inr nodes)
    with a have "edges_loop nodes 0 [] = Inl e"
      by (simp add: normalizeRoadmap_def split: sum.splits)
    then show ?thesis by (rule edges_loop_Inl)
  qed
qed

subsection \<open>Idempotence\<close>

text \<open>
  Claim C7. A Roadmap that \<open>normalizeRoadmap\<close> has returned, given to it again as its
  input, comes back unchanged: its \<^verbatim>\<open>nodes\<close> array is taken as it is, the chain of
  edges is rebuilt from the same nodes, and every scalar field is either truthy or
  already its default.
\<close>

theorem normalize_idempotent:
  assumes "normalizeRoadmap raw = Inr x"
  shows "normalizeRoadmap x = Inr x"
proof -
  from normalizeRoadmap_Inr [OF assms] obtain nodes where
    e: "edges_loop nodes 0 [] = Inr (chain_from nodes 0)" and x: "x = roadmap_of raw nodes"
    by blast
  have "resolve_nodes (roadmap_of raw nodes) = Inr nodes"
    by (rule resolve_nodes_array) (simp add: roadmap_of_props)
  from normalizeRoadmap_intro [OF this e]
  have "normalizeRoadmap x = Inr (roadmap_of (roadmap_of raw nodes) nodes)"
    by (simp add: x)
  also have "roadmap_of (roadmap_of raw nodes) nodes = roadmap_of raw nodes"
    by (subst (1) roadmap_of_def) (simp add: roadmap_of_props or_else_idem roadmap_of_def)
  finally show ?thesis by (simp add: x)
qed

theorem normalize_idempotent_witness:
  "normalizeRoadmap learn_go_parsed = Inr learn_go_roadmap \<and>
   normalizeRoadmap learn_go_roadmap = Inr learn_go_roadmap"
proof -
  have h: "normalizeRoadmap learn_go_parsed = Inr learn_go_roadmap"
    by code_simp
  from normalize_idempotent [OF h] h show ?thesis by simp
qed

text \<open>
  The same holds when the Roadmap takes the way of a response: sent as JSON and parsed
  again it has lost the \<^verbatim>\<open>source\<close> or \<^verbatim>\<open>target\<close> of an edge whose node has no \<^verbatim>\<open>id\<close>,
  and \<open>normalizeRoadmap\<close> builds the same Roadmap from it.
\<close>

lemma json_view_id:
  "is_json v \<Longrightarrow> json_view v = v"
  "are_json xs \<Longrightarrow> json_view_elements xs = xs"
  "members_json kvs \<Longrightarrow> json_view_members kvs = kvs"
  by (induction v and xs and kvs rule: json_view_json_view_elements_json_view_members.induct) auto

lemma members_json_lookup:
  "members_json kvs \<Longrightarrow> map_of kvs k = Some v \<Longrightarrow> is_json v"
  by (induction kvs) (auto split: if_splits)

lemma is_json_property:
  "is_json v \<Longrightarrow> property v k = Undefined \<or> is_json (property v k)"
  by (cases v) (auto split: option.splits dest: members_json_lookup)

lemma is_json_or_else:
  "is_json v \<Longrightarrow> is_json d \<Longrightarrow> is_json (or_else (property v k) d)"
  using is_json_property [of v k] by (auto simp: or_else_def)

lemma is_json_canonical_step: "is_json s \<Longrightarrow> is_json (canonical_step s i)"
  by (simp add: canonical_step_def is_json_or_else)

lemma are_json_map_steps:
  "are_json ss \<Longrightarrow> map_steps i ss = Inr ns \<Longrightarrow> are_json ns"
proof (induction ss arbitrary: i ns)
  case Nil
  then show ?case by simp
next
  case (Cons s ss)
  from Cons.prems(2) obtain ms where ms: "map_steps (i + 1) ss = Inr ms"
    and ns: "ns = canonical_step s i # ms"
    by (auto simp: step_of_eq split: if_splits sum.splits)
  from Cons.prems(1) Cons.IH [OF _ ms] ns show ?case
    by (simp add: is_json_canonical_step)
qed

lemma are_json_resolve_nodes:
  assumes "is_json raw" and "resolve_nodes raw = Inr nodes"
  shows "are_json nodes"
proof (cases "isArray (property raw ''nodes'')")
  case True
  then obtain xs where xs: "property raw ''nodes'' = Arr xs"
    using isArray_obtain by blast
  with is_json_property [OF assms(1), of "''nodes''"] have "are_json xs" by simp
  with resolve_nodes_array [OF xs] assms(2) show ?thesis by simp
next
  case no_nodes: False
  from assms(2) have nn: "\<not> nullish raw"
    by (auto simp: resolve_nodes_def get_def split: if_splits)
  show ?thesis
  proof (cases "isArray (property raw ''steps'')")
    case True
    then obtain ss where ss: "property raw ''steps'' = Arr ss"
      using isArray_obtain by blast
    with is_json_property [OF assms(1), of "''steps''"] have "are_json ss" by simp
    moreover from resolve_nodes_steps [OF nn no_nodes ss] assms(2)
    have "map_steps 0 ss = Inr nodes" by simp
    ultimately show ?thesis by (rule are_json_map_steps)
  next
    case False
    with resolve_nodes_neither [OF nn no_nodes] assms(2) show ?thesis by auto
  qed
qed

lemma normalize_idempotent_json_view:
  assumes "is_json raw" and "normalizeRoadmap raw = Inr x"
  shows "normalizeRoadmap (json_view x) = Inr x"
proof -
  from normalizeRoadmap_Inr [OF assms(2)] obtain nodes where
    n: "resolve_nodes raw = Inr nodes" and
    e: "edges_loop nodes 0 [] = Inr (chain_from nodes 0)" and x: "x = roadmap_of raw nodes"
    by blast
  from are_json_resolve_nodes [OF assms(1) n] have j: "json_view_elements nodes = nodes"
    by (rule json_view_id)
  have s: "json_view (or_else (property raw k) (Str d)) = or_else (property raw k) (Str d)" for k d
    by (rule json_view_id) (simp add: is_json_or_else assms(1))
  have v: "json_view x =
      Obj [(''title'', or_else (property raw ''title'') (Str ''AI Generated Roadmap'')),
           (''description'', or_else (property raw ''description'') (Str [])),
           (''nodes'', Arr nodes),
           (''edges'', Arr (json_view_elements (chain_from nodes 0))),
           (''estimatedTotalDuration'', or_else (property raw ''estimatedTotalDuration'') (Str [])),
           (''difficulty'', or_else (property raw ''difficulty'') (Str ''beginner'')),
           (''category'', or_else (property raw ''category'') (Str ''general''))]"
    by (simp add: x roadmap_of_def or_else_cases(1) s j)
  have "resolve_nodes (json_view x) = Inr nodes"
    by (rule resolve_nodes_array) (simp add: v)
  from normalizeRoadmap_intro [OF this e]
  have "normalizeRoadmap (json_view x) = Inr (roadmap_of (json_view x) nodes)" .
  also have "roadmap_of (json_view x) nodes = roadmap_of raw nodes"
    by (subst (1) roadmap_of_def) (simp add: v or_else_idem roadmap_of_def)
  finally show ?thesis by (simp add: x)
qed

subsection \<open>The edges of the result\<close>

text \<open>
  Claim C1, as amended. \<open>normalizeRoadmap\<close> never reads the edges of its input: whenever
  it returns, the edges of the Roadmap are the linear chain over its nodes, one edge
  from each node to the next with the label \<^verbatim>\<open>Then\<close>, and setting the \<^verbatim>\<open>edges\<close>
  property of the input object to any value (adding or replacing it) leaves the result
  as it was.
\<close>

theorem edges_always_chain:
  "(normalizeRoadmap raw = Inr r \<longrightarrow>
      (\<exists>nodes edges.
         property r ''nodes'' = Arr nodes \<and> property r ''edges'' = Arr edges \<and>
         length edges = length nodes - 1 \<and>
         (\<forall>i<length nodes - 1.
            edges ! i = Obj [(''source'', property (nodes ! i) ''id''),
                             (''target'', property (nodes ! (i + 1)) ''id''),
                             (''label'', Str ''Then'')]))) \<and>
   normalizeRoadmap (Obj (AList.update ''edges'' e kvs)) = normalizeRoadmap (Obj kvs)"
proof (intro conjI impI)
  assume "normalizeRoadmap raw = Inr r"
  from normalizeRoadmap_Inr [OF this] obtain nodes where "r = roadmap_of raw nodes"
    by blast
  then have "property r ''nodes'' = Arr nodes"
    and "property r ''edges'' = Arr (chain_from nodes 0)"
    by (simp_all add: roadmap_of_props)
  moreover have "length (chain_from nodes 0) = length nodes - 1"
    by (simp add: chain_from_def)
  moreover have "\<forall>i<length nodes - 1.
      chain_from nodes 0 ! i = Obj [(''source'', property (nodes ! i) ''id''),
                                    (''target'', property (nodes ! (i + 1)) ''id''),
                                    (''label'', Str ''Then'')]"
    by (simp add: chain_from_def edge_between_def)
  ultimately show "\<exists>nodes edges.
      property r ''nodes'' = Arr nodes \<and> property r ''edges'' = Arr edges \<and>
      length edges = length nodes - 1 \<and>
      (\<forall>i<length nodes - 1.
         edges ! i = Obj [(''source'', property (nodes ! i) ''id''),
                          (''target'', property (nodes ! (i + 1)) ''id''),
                          (''label'', Str ''Then'')])"
    by blast
next
  show "normalizeRoadmap (Obj (AList.update ''edges'' e kvs)) = normalizeRoadmap (Obj kvs)"
    by (rule normalize_ignores_edges)
qed

text \<open>
  The claim as the specification states it fails on \<open>supplied_edges_parsed\<close>: the input
  supplies one edge, from \<^verbatim>\<open>b\<close> to \<^verbatim>\<open>a\<close> with the label \<^verbatim>\<open>Back\<close>, and the Roadmap
  holds the synthesized edge from \<^verbatim>\<open>a\<close> to \<^verbatim>\<open>b\<close> instead.
\<close>

theorem supplied_edges_replaced:
  "property supplied_edges_parsed ''edges'' =
     Arr [Obj [(''source'', Str ''b''), (''target'', Str ''a''), (''label'', Str ''Back'')]] \<and>
   normalizeRoadmap supplied_edges_parsed = Inr supplied_edges_roadmap \<and>
   property supplied_edges_roadmap ''edges'' =
     Arr [Obj [(''source'', Str ''a''), (''target'', Str ''b''), (''label'', Str ''Then'')]] \<and>
   property supplied_edges_roadmap ''edges'' \<noteq> property supplied_edges_parsed ''edges''"
  by code_simp

theorem edges_always_chain_witness:
  "normalizeRoadmap supplied_edges_parsed = Inr supplied_edges_roadmap \<and>
   property supplied_edges_roadmap ''nodes'' =
     Arr [Obj [(''id'', Str ''a'')], Obj [(''id'', Str ''b'')]] \<and>
   property supplied_edges_roadmap ''edges'' =
     Arr [Obj [(''source'', Str ''a''), (''target'', Str ''b''), (''label'', Str ''Then'')]] \<and>
   normalizeRoadmap
     (Obj (AList.update ''edges'' (Arr [])
        [(''nodes'', Arr [Obj [(''id'', Str ''a'')], Obj [(''id'', Str ''b'')]]),
         (''edges'',
            Arr [Obj [(''source'', Str ''b''), (''target'', Str ''a''),
                      (''label'', Str ''Back'')]])])) =
     Inr supplied_edges_roadmap"
proof -
  let ?nodes = "[Obj [(''id'', Str ''a'')], Obj [(''id'', Str ''b'')]]"
  let ?kvs = "[(''nodes'', Arr ?nodes),
               (''edges'',
                  Arr [Obj [(''source'', Str ''b''), (''target'', Str ''a''),
                            (''label'', Str ''Back'')]])]"
  have h: "normalizeRoadmap supplied_edges_parsed = Inr supplied_edges_roadmap"
    by code_simp
  have k: "supplied_edges_parsed = Obj ?kvs"
    by (simp add: supplied_edges_parsed_def)
  have n: "property supplied_edges_roadmap ''nodes'' = Arr ?nodes"
    by (simp add: supplied_edges_roadmap_def)
  note t = edges_always_chain [of supplied_edges_parsed supplied_edges_roadmap "Arr []" ?kvs]
  from t h n obtain edges where e: "property supplied_edges_roadmap ''edges'' = Arr edges"
    and len: "length edges = 1"
    and el: "\<forall>i<1. edges ! i = Obj [(''source'', property (?nodes ! i) ''id''),
                                      (''target'', property (?nodes ! (i + 1)) ''id''),
                                      (''label'', Str ''Then'')]"
    by auto
  from el [rule_format, of 0]
  have "edges ! 0 = Obj [(''source'', Str ''a''), (''target'', Str ''b''), (''label'', Str ''Then'')]"
    by simp
  with len
  have "edges = [Obj [(''source'', Str ''a''), (''target'', Str ''b''), (''label'', Str ''Then'')]]"
    by (auto simp: list_eq_iff_nth_eq)
  moreover from t h k have
    "normalizeRoadmap (Obj (AList.update ''edges'' (Arr []) ?kvs)) = Inr supplied_edges_roadmap"
    by simp
  ultimately show ?thesis using h n e by simp
qed

text \<open>
  Claim C4. When the Roadmap has \<open>n \<ge> 2\<close> nodes, its edge list has exactly \<open>n - 1\<close>
  entries, and the entry at index \<open>i\<close> is the object with \<^verbatim>\<open>source\<close> the \<^verbatim>\<open>id\<close> of
  node \<open>i\<close>, \<^verbatim>\<open>target\<close> the \<^verbatim>\<open>id\<close> of node \<open>i + 1\<close> and \<^verbatim>\<open>label\<close> the string
  \<^verbatim>\<open>Then\<close>. This holds whatever the input says about edges, so in particular when it
  supplies none. (A node without an \<^verbatim>\<open>id\<close> reads as \<^verbatim>\<open>undefined\<close> on both sides.) And
  there is such a Roadmap, with the resolved node list as its nodes, whenever no entry
  of that list is \<^verbatim>\<open>null\<close>.
\<close>

theorem auto_chain:
  "(normalizeRoadmap raw = Inr r \<and> property r ''nodes'' = Arr nodes \<and> 2 \<le> length nodes \<longrightarrow>
      (\<exists>edges. property r ''edges'' = Arr edges \<and> length edges = length nodes - 1 \<and>
         (\<forall>i<length nodes - 1.
            edges ! i = Obj [(''source'', property (nodes ! i) ''id''),
                             (''target'', property (nodes ! (i + 1)) ''id''),
                             (''label'', Str ''Then'')]))) \<and>
   (resolve_nodes raw = Inr nodes \<and> (\<forall>n\<in>set nodes. \<not> nullish n) \<longrightarrow>
      (\<exists>r. normalizeRoadmap raw = Inr r \<and> property r ''nodes'' = Arr nodes))"
proof (intro conjI impI)
  assume a: "normalizeRoadmap raw = Inr r \<and> property r ''nodes'' = Arr nodes \<and> 2 \<le> length nodes"
  with normalizeRoadmap_Inr [of raw r] obtain ns where r: "r = roadmap_of raw ns"
    by blast
  with a have "ns = nodes" by (simp add: roadmap_of_props)
  with r have "property r ''edges'' = Arr (chain_from nodes 0)"
    by (simp add: roadmap_of_props)
  moreover have "length (chain_from nodes 0) = length nodes - 1"
    by (simp add: chain_from_def)
  moreover have "\<forall>i<length nodes - 1.
      chain_from nodes 0 ! i = Obj [(''source'', property (nodes ! i) ''id''),
                                    (''target'', property (nodes ! (i + 1)) ''id''),
                                    (''label'', Str ''Then'')]"
    by (simp add: chain_from_def edge_between_def)
  ultimately show "\<exists>edges. property r ''edges'' = Arr edges \<and> length edges = length nodes - 1 \<and>
      (\<forall>i<length nodes - 1.
         edges ! i = Obj [(''source'', property (nodes ! i) ''id''),
                          (''target'', property (nodes ! (i + 1)) ''id''),
                          (''label'', Str ''Then'')])"
    by blast
next
  assume a: "resolve_nodes raw = Inr nodes \<and> (\<forall>n\<in>set nodes. \<not> nullish n)"
  then have "edges_loop nodes 0 [] = Inr ([] @ chain_from nodes 0)"
    by (intro edges_loop_total) simp
  with a have "normalizeRoadmap raw = Inr (roadmap_of raw nodes)"
    by (simp add: normalizeRoadmap_intro)
  then show "\<exists>r. normalizeRoadmap raw = Inr r \<and> property r ''nodes'' = Arr nodes"
    by (simp add: roadmap_of_props)
qed

theorem auto_chain_witness:
  "resolve_nodes learn_go_parsed =
     Inr [canonical_step (Str ''Read docs'') 0, canonical_step (Str ''Build a CLI'') 1] \<and>
   normalizeRoadmap learn_go_parsed = Inr learn_go_roadmap \<and>
   property learn_go_roadmap ''nodes'' =
     Arr [canonical_step (Str ''Read docs'') 0, canonical_step (Str ''Build a CLI'') 1] \<and>
   property learn_go_roadmap ''edges'' =
     Arr [Obj [(''source'', Str ''step_1''), (''target'', Str ''step_2''),
               (''label'', Str ''Then'')]]"
proof -
  let ?nodes = "[canonical_step (Str ''Read docs'') 0, canonical_step (Str ''Build a CLI'') 1]"
  have d: "nat_to_string (Suc 0) = ''1''" "nat_to_string (Suc (Suc 0)) = ''2''"
    by code_simp+
  have i: "property (?nodes ! 0) ''id'' = Str ''step_1''"
    "property (?nodes ! (0 + 1)) ''id'' = Str ''step_2''"
    by (simp_all add: canonical_step_def d)
  have q: "resolve_nodes learn_go_parsed = Inr ?nodes"
    by (simp add: resolve_nodes_def get_def learn_go_parsed_def step_of_eq)
  have nn: "\<forall>n\<in>set ?nodes. \<not> nullish n"
    by (simp add: canonical_step_def)
  have h: "normalizeRoadmap learn_go_parsed = Inr learn_go_roadmap"
    by code_simp
  from auto_chain [of learn_go_parsed _ ?nodes] q nn h
  have n: "property learn_go_roadmap ''nodes'' = Arr ?nodes"
    by auto
  have l: "2 \<le> length ?nodes" by simp
  from auto_chain [of learn_go_parsed learn_go_roadmap ?nodes] h n l
  obtain edges where e: "property learn_go_roadmap ''edges'' = Arr edges"
    and len: "length edges = 1"
    and el: "\<forall>i<1. edges ! i = Obj [(''source'', property (?nodes ! i) ''id''),
                                      (''target'', property (?nodes ! (i + 1)) ''id''),
                                      (''label'', Str ''Then'')]"
    by auto
  from el [rule_format, of 0] i
  have "edges ! 0 = Obj [(''source'', Str ''step_1''), (''target'', Str ''step_2''),
                         (''label'', Str ''Then'')]"
    by simp
  with len
  have "edges = [Obj [(''source'', Str ''step_1''), (''target'', Str ''step_2''),
                      (''label'', Str ''Then'')]]"
    by (auto simp: list_eq_iff_nth_eq)
  with q h n e show ?thesis by simp
qed

lemma steps_path_ids:
  assumes "\<not> isArray (property raw ''nodes'')" and "normalizeRoadmap raw = Inr r"
    and "property r ''nodes'' = Arr nodes"
  shows "\<forall>n\<in>set nodes. property n ''id'' \<noteq> Undefined"
proof -
  from normalizeRoadmap_Inr [OF assms(2)] obtain ns where
    n: "resolve_nodes raw = Inr ns" and r: "r = roadmap_of raw ns"
    by blast
  with assms(3) have ns: "ns = nodes" by (simp add: roadmap_of_props)
  from n have nn: "\<not> nullish raw"
    by (auto simp: resolve_nodes_def get_def split: if_splits)
  show ?thesis
  proof (cases "isArray (property raw ''steps'')")
    case True
    then obtain ss where ss: "property raw ''steps'' = Arr ss"
      using isArray_obtain by blast
    from resolve_nodes_steps [OF nn assms(1) ss] n ns have "map_steps 0 ss = Inr nodes"
      by simp
    from map_steps_Inr [OF this] have len: "length nodes = length ss"
      and el: "\<forall>k<length ss. nodes ! k = canonical_step (ss ! k) (0 + k)"
      by simp_all
    show ?thesis
    proof
      fix x assume "x \<in> set nodes"
      then obtain k where "k < length nodes" and "x = nodes ! k"
        by (auto simp: in_set_conv_nth)
      with len el have "x = canonical_step (ss ! k) (0 + k)" by simp
      then show "property x ''id'' \<noteq> Undefined" by (simp add: canonical_step_id)
    qed
  next
    case False
    with resolve_nodes_neither [OF nn assms(1)] n ns show ?thesis by simp
  qed
qed

text \<open>
  Claim C8, as amended. In the Roadmap \<open>normalizeRoadmap\<close> returns, the edge at index
  \<open>k\<close> is built from the nodes \<open>k\<close> and \<open>k + 1\<close>: its \<^verbatim>\<open>source\<close> is what the \<^verbatim>\<open>id\<close> of
  node \<open>k\<close> reads as, its \<^verbatim>\<open>target\<close> what the \<^verbatim>\<open>id\<close> of node \<open>k + 1\<close> reads as, and no
  other edge gets into the result. So when every node of the Roadmap has an \<^verbatim>\<open>id\<close>,
  the \<^verbatim>\<open>source\<close> and the \<^verbatim>\<open>target\<close> of every edge are ids of nodes of the same
  Roadmap; and every node has one when \<^verbatim>\<open>raw.nodes\<close> is not an array, where the nodes
  are the Steps built from \<^verbatim>\<open>raw.steps\<close>. A node taken from a \<^verbatim>\<open>raw.nodes\<close> array
  without an \<^verbatim>\<open>id\<close> gives its edges a \<^verbatim>\<open>source\<close> or \<^verbatim>\<open>target\<close> that is
  \<^verbatim>\<open>undefined\<close>.
\<close>

theorem edges_reference_nodes:
  "(normalizeRoadmap raw = Inr r \<and> property r ''nodes'' = Arr nodes \<and>
    property r ''edges'' = Arr edges \<and> k < length edges \<longrightarrow>
      k + 1 < length nodes \<and>
      property (edges ! k) ''source'' = property (nodes ! k) ''id'' \<and>
      property (edges ! k) ''target'' = property (nodes ! (k + 1)) ''id'') \<and>
   (normalizeRoadmap raw = Inr r \<and> property r ''nodes'' = Arr nodes \<and>
    property r ''edges'' = Arr edges \<and> e \<in> set edges \<and>
    (\<forall>n\<in>set nodes. property n ''id'' \<noteq> Undefined) \<longrightarrow>
      (\<exists>n\<in>set nodes. property e ''source'' = property n ''id'') \<and>
      (\<exists>n\<in>set nodes. property e ''target'' = property n ''id'') \<and>
      property e ''source'' \<noteq> Undefined \<and> property e ''target'' \<noteq> Undefined) \<and>
   (\<not> isArray (property raw ''nodes'') \<and> normalizeRoadmap raw = Inr r \<and>
    property r ''nodes'' = Arr nodes \<longrightarrow>
      (\<forall>n\<in>set nodes. property n ''id'' \<noteq> Undefined))"
proof -
  have chain: "edges = chain_from nodes 0"
    if "normalizeRoadmap raw = Inr r" "property r ''nodes'' = Arr nodes"
      "property r ''edges'' = Arr edges"
  proof -
    from normalizeRoadmap_Inr [OF that(1)] obtain ns where r: "r = roadmap_of raw ns"
      by blast
    with that(2) have "ns = nodes" by (simp add: roadmap_of_props)
    with r that(3) show ?thesis by (simp add: roadmap_of_props)
  qed
  have at: "k + 1 < length nodes \<and>
      property (edges ! k) ''source'' = property (nodes ! k) ''id'' \<and>
      property (edges ! k) ''target'' = property (nodes ! (k + 1)) ''id''"
    if "edges = chain_from nodes 0" "k < length edges" for k
    using that by (simp add: chain_from_def edge_between_def)
  show ?thesis
  proof (intro conjI impI)
    assume a: "normalizeRoadmap raw = Inr r \<and> property r ''nodes'' = Arr nodes \<and>
      property r ''edges'' = Arr edges \<and> k < length edges"
    with chain have c: "edges = chain_from nodes 0" by blast
    from at [OF c] a show "k + 1 < length nodes"
      and "property (edges ! k) ''source'' = property (nodes ! k) ''id''"
      and "property (edges ! k) ''target'' = property (nodes ! (k + 1)) ''id''"
      by blast+
  next
    assume a: "normalizeRoadmap raw = Inr r \<and> property r ''nodes'' = Arr nodes \<and>
      property r ''edges'' = Arr edges \<and> e \<in> set edges \<and>
      (\<forall>n\<in>set nodes. property n ''id'' \<noteq> Undefined)"
    with chain have c: "edges = chain_from nodes 0" by blast
    from a obtain j where j: "j < length edges" and e: "e = edges ! j"
      by (auto simp: in_set_conv_nth)
    from at [OF c j] e have lt: "j + 1 < length nodes"
      and s: "property e ''source'' = property (nodes ! j) ''id''"
      and t: "property e ''target'' = property (nodes ! (j + 1)) ''id''"
      by simp_all
    from lt have m: "nodes ! j \<in> set nodes" "nodes ! (j + 1) \<in> set nodes" by simp_all
    from m s show "\<exists>n\<in>set nodes. property e ''source'' = property n ''id''" by blast
    from m t show "\<exists>n\<in>set nodes. property e ''target'' = property n ''id''" by blast
    from m s a show "property e ''source'' \<noteq> Undefined" by simp
    from m t a show "property e ''target'' \<noteq> Undefined" by simp
  next
    assume "\<not> isArray (property raw ''nodes'') \<and> normalizeRoadmap raw = Inr r \<and>
      property r ''nodes'' = Arr nodes"
    then show "\<forall>n\<in>set nodes. property n ''id'' \<noteq> Undefined"
      using steps_path_ids [of raw r nodes] by blast
  qed
qed

text \<open>
  The claim as the specification states it fails on
  \<^verbatim>\<open>{"nodes": [{"title": "Intro"}, "Practice"]}\<close>: neither node has an \<^verbatim>\<open>id\<close>, and the
  one edge of the Roadmap has \<^verbatim>\<open>undefined\<close> for its \<^verbatim>\<open>source\<close> and its \<^verbatim>\<open>target\<close>; sent
  as JSON it is \<^verbatim>\<open>{"label":"Then"}\<close> and names no node.
\<close>

theorem edges_reference_nodes_counterexample:
  \<open>normalizeRoadmap (Obj [(''nodes'', Arr [Obj [(''title'', Str ''Intro'')], Str ''Practice''])]) =
     Inr (Obj [(''title'', Str ''AI Generated Roadmap''),
               (''description'', Str []),
               (''nodes'', Arr [Obj [(''title'', Str ''Intro'')], Str ''Practice'']),
               (''edges'',
                  Arr [Obj [(''source'', Undefined), (''target'', Undefined),
                            (''label'', Str ''Then'')]]),
               (''estimatedTotalDuration'', Str []),
               (''difficulty'', Str ''beginner''),
               (''category'', Str ''general'')]) \<and>
   property (Obj [(''title'', Str ''Intro'')]) ''id'' = Undefined \<and>
   property (Str ''Practice'') ''id'' = Undefined \<and>
   JSON_stringify (Obj [(''source'', Undefined), (''target'', Undefined), (''label'', Str ''Then'')]) =
     ''{"label":"Then"}''\<close>
  by code_simp

theorem edges_reference_nodes_witness:
  "normalizeRoadmap supplied_edges_parsed = Inr supplied_edges_roadmap \<and>
   property supplied_edges_roadmap ''nodes'' =
     Arr [Obj [(''id'', Str ''a'')], Obj [(''id'', Str ''b'')]] \<and>
   property supplied_edges_roadmap ''edges'' =
     Arr [Obj [(''source'', Str ''a''), (''target'', Str ''b''), (''label'', Str ''Then'')]] \<and>
   property (Obj [(''source'', Str ''a''), (''target'', Str ''b''), (''label'', Str ''Then'')])
     ''source'' = property (Obj [(''id'', Str ''a'')]) ''id'' \<and>
   property (Obj [(''source'', Str ''a''), (''target'', Str ''b''), (''label'', Str ''Then'')])
     ''target'' = property (Obj [(''id'', Str ''b'')]) ''id'' \<and>
   (\<exists>n\<in>set [Obj [(''id'', Str ''a'')], Obj [(''id'', Str ''b'')]].
      property (Obj [(''source'', Str ''a''), (''target'', Str ''b''), (''label'', Str ''Then'')])
        ''source'' = property n ''id'') \<and>
   (\<exists>n\<in>set [Obj [(''id'', Str ''a'')], Obj [(''id'', Str ''b'')]].
      property (Obj [(''source'', Str ''a''), (''target'', Str ''b''), (''label'', Str ''Then'')])
        ''target'' = property n ''id'') \<and>
   \<not> isArray (property learn_go_parsed ''nodes'') \<and>
   normalizeRoadmap learn_go_parsed = Inr learn_go_roadmap \<and>
   property learn_go_roadmap ''nodes'' =
     Arr [canonical_step (Str ''Read docs'') 0, canonical_step (Str ''Build a CLI'') 1] \<and>
   property (canonical_step (Str ''Read docs'') 0) ''id'' \<noteq> Undefined \<and>
   property (canonical_step (Str ''Build a CLI'') 1) ''id'' \<noteq> Undefined"
proof -
  let ?e = "Obj [(''source'', Str ''a''), (''target'', Str ''b''), (''label'', Str ''Then'')]"
  let ?nodes = "[Obj [(''id'', Str ''a'')], Obj [(''id'', Str ''b'')]]"
  let ?steps = "[canonical_step (Str ''Read docs'') 0, canonical_step (Str ''Build a CLI'') 1]"
  have h: "normalizeRoadmap supplied_edges_parsed = Inr supplied_edges_roadmap"
    by code_simp
  have n: "property supplied_edges_roadmap ''nodes'' = Arr ?nodes"
    by (simp add: supplied_edges_roadmap_def)
  have e: "property supplied_edges_roadmap ''edges'' = Arr [?e]"
    by (simp add: supplied_edges_roadmap_def)
  have ids: "\<forall>n\<in>set ?nodes. property n ''id'' \<noteq> Undefined" by simp
  note t = edges_reference_nodes [of supplied_edges_parsed supplied_edges_roadmap ?nodes "[?e]"]
  from t [of 0] h n e
  have a1: "property ?e ''source'' = property (Obj [(''id'', Str ''a'')]) ''id''"
    and a2: "property ?e ''target'' = property (Obj [(''id'', Str ''b'')]) ''id''"
    by simp_all
  from t [of _ ?e] h n e ids
  have b1: "\<exists>n\<in>set ?nodes. property ?e ''source'' = property n ''id''"
    and b2: "\<exists>n\<in>set ?nodes. property ?e ''target'' = property n ''id''"
    by simp_all
  have s1: "\<not> isArray (property learn_go_parsed ''nodes'')"
    by (simp add: learn_go_parsed_def)
  have g: "normalizeRoadmap learn_go_parsed = Inr learn_go_roadmap"
    by code_simp
  have d: "nat_to_string (Suc 0) = ''1''" "nat_to_string (Suc (Suc 0)) = ''2''"
    by code_simp+
  have m: "property learn_go_roadmap ''nodes'' = Arr ?steps"
    by (simp add: learn_go_roadmap_def canonical_step_def or_else_def d)
  from edges_reference_nodes [of learn_go_parsed learn_go_roadmap ?steps] s1 g m
  have c: "\<forall>n\<in>set ?steps. property n ''id'' \<noteq> Undefined"
    by blast
  then have c1: "property (canonical_step (Str ''Read docs'') 0) ''id'' \<noteq> Undefined"
    and c2: "property (canonical_step (Str ''Build a CLI'') 1) ''id'' \<noteq> Undefined"
    by simp_all
  from h n e a1 a2 b1 b2 s1 g m c1 c2 show ?thesis
    by - (intro conjI; assumption)
qed

subsection \<open>The nodes of the result\<close>

text \<open>
  Claim C10. When \<^verbatim>\<open>raw.nodes\<close> is an array, that array is the \<^verbatim>\<open>nodes\<close> of the
  Roadmap as it stands: no entry is reshaped, given an \<^verbatim>\<open>id\<close> or a \<^verbatim>\<open>type\<close>, or
  completed with defaults, and the function returns whenever no entry is \<^verbatim>\<open>null\<close>.
  Entries are made canonical Steps only on the other path, when \<^verbatim>\<open>raw.nodes\<close> is not
  an array and \<^verbatim>\<open>raw.steps\<close> is one.
\<close>

theorem nodes_array_verbatim:
  "(property raw ''nodes'' = Arr xs \<and> normalizeRoadmap raw = Inr r \<longrightarrow>
      property r ''nodes'' = Arr xs) \<and>
   (property raw ''nodes'' = Arr xs \<and> (\<forall>x\<in>set xs. \<not> nullish x) \<longrightarrow>
      normalizeRoadmap raw = Inr (roadmap_of raw xs)) \<and>
   (\<not> isArray (property raw ''nodes'') \<and> property raw ''steps'' = Arr ss \<and>
    normalizeRoadmap raw = Inr r \<longrightarrow>
      (\<exists>ns. property r ''nodes'' = Arr ns \<and> length ns = length ss \<and>
            (\<forall>k<length ss. ns ! k = canonical_step (ss ! k) k)))"
proof (intro conjI impI)
  assume a: "property raw ''nodes'' = Arr xs \<and> normalizeRoadmap raw = Inr r"
  from normalizeRoadmap_Inr [of raw r] a obtain ns where
    n: "resolve_nodes raw = Inr ns" and r: "r = roadmap_of raw ns"
    by blast
  from resolve_nodes_array [of raw xs] a n have "ns = xs" by simp
  with r show "property r ''nodes'' = Arr xs" by (simp add: roadmap_of_props)
next
  assume a: "property raw ''nodes'' = Arr xs \<and> (\<forall>x\<in>set xs. \<not> nullish x)"
  then have n: "resolve_nodes raw = Inr xs" by (simp add: resolve_nodes_array)
  from a have "edges_loop xs 0 [] = Inr ([] @ chain_from xs 0)"
    by (intro edges_loop_total) simp
  with n show "normalizeRoadmap raw = Inr (roadmap_of raw xs)"
    by (simp add: normalizeRoadmap_intro)
next
  assume "\<not> isArray (property raw ''nodes'') \<and> property raw ''steps'' = Arr ss \<and>
    normalizeRoadmap raw = Inr r"
  then show "\<exists>ns. property r ''nodes'' = Arr ns \<and> length ns = length ss \<and>
            (\<forall>k<length ss. ns ! k = canonical_step (ss ! k) k)"
    using normalize_steps_canonical [of raw ss r] by blast
qed

theorem nodes_array_verbatim_witness:
  "property (Obj [(''nodes'', Arr [Obj [(''title'', Str ''Intro'')], Str ''Practice''])]) ''nodes'' =
     Arr [Obj [(''title'', Str ''Intro'')], Str ''Practice''] \<and>
   normalizeRoadmap (Obj [(''nodes'', Arr [Obj [(''title'', Str ''Intro'')], Str ''Practice''])]) =
     Inr (Obj [(''title'', Str ''AI Generated Roadmap''),
               (''description'', Str []),
               (''nodes'', Arr [Obj [(''title'', Str ''Intro'')], Str ''Practice'']),
               (''edges'',
                  Arr [Obj [(''source'', Undefined), (''target'', Undefined),
                            (''label'', Str ''Then'')]]),
               (''estimatedTotalDuration'', Str []),
               (''difficulty'', Str ''beginner''),
               (''category'', Str ''general'')]) \<and>
   \<not> isArray (property learn_go_parsed ''nodes'') \<and>
   property learn_go_parsed ''steps'' = Arr [Str ''Read docs'', Str ''Build a CLI''] \<and>
   normalizeRoadmap learn_go_parsed = Inr learn_go_roadmap \<and>
   property learn_go_roadmap ''nodes'' =
     Arr [canonical_step (Str ''Read docs'') 0, canonical_step (Str ''Build a CLI'') 1]"
proof -
  let ?xs = "[Obj [(''title'', Str ''Intro'')], Str ''Practice'']"
  let ?raw = "Obj [(''nodes'', Arr ?xs)]"
  let ?ss = "[Str ''Read docs'', Str ''Build a CLI'']"
  have p: "property ?raw ''nodes'' = Arr ?xs" by simp
  have nn: "\<forall>x\<in>set ?xs. \<not> nullish x" by simp
  have s1: "\<not> isArray (property learn_go_parsed ''nodes'')"
    by (simp add: learn_go_parsed_def)
  have s2: "property learn_go_parsed ''steps'' = Arr ?ss"
    by (simp add: learn_go_parsed_def)
  have h: "normalizeRoadmap learn_go_parsed = Inr learn_go_roadmap"
    by code_simp
  have r1: "normalizeRoadmap ?raw = Inr (roadmap_of ?raw ?xs)"
    using nodes_array_verbatim [of ?raw ?xs] p nn by blast
  have r2: "property (roadmap_of ?raw ?xs) ''nodes'' = Arr ?xs"
    using nodes_array_verbatim [of ?raw ?xs "roadmap_of ?raw ?xs"] p r1 by blast
  have v: "roadmap_of ?raw ?xs =
      Obj [(''title'', Str ''AI Generated Roadmap''),
           (''description'', Str []),
           (''nodes'', Arr ?xs),
           (''edges'',
              Arr [Obj [(''source'', Undefined), (''target'', Undefined),
                        (''label'', Str ''Then'')]]),
           (''estimatedTotalDuration'', Str []),
           (''difficulty'', Str ''beginner''),
           (''category'', Str ''general'')]"
    by (simp add: roadmap_of_def chain_from_def edge_between_def or_else_def)
  from nodes_array_verbatim [of learn_go_parsed _ learn_go_roadmap ?ss] s1 s2 h
  have "\<exists>ns. property learn_go_roadmap ''nodes'' = Arr ns \<and> length ns = length ?ss \<and>
      (\<forall>k<length ?ss. ns ! k = canonical_step (?ss ! k) k)"
    by blast
  then obtain ns where ns: "property learn_go_roadmap ''nodes'' = Arr ns"
    and len: "length ns = 2" and el: "\<forall>k<2. ns ! k = canonical_step (?ss ! k) k"
    by auto
  from el [rule_format, of 0] el [rule_format, of 1]
  have "ns ! 0 = canonical_step (Str ''Read docs'') 0"
    and "ns ! 1 = canonical_step (Str ''Build a CLI'') 1"
    by simp_all
  with len
  have "ns = [canonical_step (Str ''Read docs'') 0, canonical_step (Str ''Build a CLI'') 1]"
    by (auto simp: list_eq_iff_nth_eq less_Suc_eq numeral_2_eq_2)
  with ns p r1 v s1 s2 h show ?thesis by simp
qed

text \<open>
  Claim C2, as amended. On the \<^verbatim>\<open>steps\<close> path the \<^verbatim>\<open>id\<close> of the Step at index \<open>i\<close>
  is \<^verbatim>\<open>step_\<close> followed by \<open>i + 1\<close> in decimal, whether or not the entry has an
  \<^verbatim>\<open>id\<close> of its own. On the \<^verbatim>\<open>nodes\<close> path every node reads the same \<^verbatim>\<open>id\<close> as the
  entry it comes from: the entry's own \<^verbatim>\<open>id\<close> when it supplies one, and none
  (\<^verbatim>\<open>undefined\<close>) when it omits it.
\<close>

theorem step_ids:
  "(\<not> isArray (property raw ''nodes'') \<and> property raw ''steps'' = Arr ss \<and>
    normalizeRoadmap raw = Inr r \<longrightarrow>
      (\<exists>ns. property r ''nodes'' = Arr ns \<and> length ns = length ss \<and>
            (\<forall>i<length ss. property (ns ! i) ''id'' = Str (''step_'' @ nat_to_string (i + 1))))) \<and>
   (property raw ''nodes'' = Arr xs \<and> normalizeRoadmap raw = Inr r \<longrightarrow>
      (\<exists>ns. property r ''nodes'' = Arr ns \<and> length ns = length xs \<and>
            (\<forall>i<length xs. property (ns ! i) ''id'' = property (xs ! i) ''id'')))"
proof (intro conjI impI)
  assume "\<not> isArray (property raw ''nodes'') \<and> property raw ''steps'' = Arr ss \<and>
    normalizeRoadmap raw = Inr r"
  then obtain ns where "property r ''nodes'' = Arr ns" "length ns = length ss"
    "\<forall>k<length ss. ns ! k = canonical_step (ss ! k) k"
    using normalize_steps_canonical [of raw ss r] by blast
  then show "\<exists>ns. property r ''nodes'' = Arr ns \<and> length ns = length ss \<and>
      (\<forall>i<length ss. property (ns ! i) ''id'' = Str (''step_'' @ nat_to_string (i + 1)))"
    by (auto simp: canonical_step_id)
next
  assume a: "property raw ''nodes'' = Arr xs \<and> normalizeRoadmap raw = Inr r"
  from normalizeRoadmap_Inr [of raw r] a obtain ns where
    n: "resolve_nodes raw = Inr ns" and r: "r = roadmap_of raw ns"
    by blast
  from resolve_nodes_array [of raw xs] a n have "ns = xs" by simp
  with r show "\<exists>ns. property r ''nodes'' = Arr ns \<and> length ns = length xs \<and>
      (\<forall>i<length xs. property (ns ! i) ''id'' = property (xs ! i) ''id'')"
    by (simp add: roadmap_of_props)
qed

text \<open>
  The claim as the specification states it fails both ways. A \<^verbatim>\<open>steps\<close> entry with
  the \<^verbatim>\<open>id\<close> \<^verbatim>\<open>intro\<close> becomes the Step \<^verbatim>\<open>step_1\<close>; a \<^verbatim>\<open>nodes\<close> entry without an
  \<^verbatim>\<open>id\<close> stays without one.
\<close>

theorem step_ids_counterexample:
  "normalizeRoadmap (Obj [(''steps'', Arr [Obj [(''id'', Str ''intro''), (''title'', Str ''Intro'')]])]) =
     Inr (Obj [(''title'', Str ''AI Generated Roadmap''),
               (''description'', Str []),
               (''nodes'',
                  Arr [Obj [(''id'', Str ''step_1''), (''title'', Str ''Intro''),
                            (''description'', Str []), (''duration'', Str []),
                            (''type'', Str ''task''), (''resources'', Arr [])]]),
               (''edges'', Arr []),
               (''estimatedTotalDuration'', Str []),
               (''difficulty'', Str ''beginner''),
               (''category'', Str ''general'')]) \<and>
   Str ''step_1'' \<noteq> Str ''intro'' \<and>
   normalizeRoadmap (Obj [(''nodes'', Arr [Obj [(''title'', Str ''Intro'')]])]) =
     Inr (Obj [(''title'', Str ''AI Generated Roadmap''),
               (''description'', Str []),
               (''nodes'', Arr [Obj [(''title'', Str ''Intro'')]]),
               (''edges'', Arr []),
               (''estimatedTotalDuration'', Str []),
               (''difficulty'', Str ''beginner''),
               (''category'', Str ''general'')]) \<and>
   property (Obj [(''title'', Str ''Intro'')]) ''id'' = Undefined"
  by code_simp

theorem step_ids_witness:
  "\<not> isArray (property learn_go_parsed ''nodes'') \<and>
   property learn_go_parsed ''steps'' = Arr [Str ''Read docs'', Str ''Build a CLI''] \<and>
   normalizeRoadmap learn_go_parsed = Inr learn_go_roadmap \<and>
   (\<exists>ns. property learn_go_roadmap ''nodes'' = Arr ns \<and> length ns = 2 \<and>
         property (ns ! 0) ''id'' = Str ''step_1'' \<and> property (ns ! 1) ''id'' = Str ''step_2'') \<and>
   property supplied_edges_parsed ''nodes'' = Arr [Obj [(''id'', Str ''a'')], Obj [(''id'', Str ''b'')]] \<and>
   normalizeRoadmap supplied_edges_parsed = Inr supplied_edges_roadmap \<and>
   (\<exists>ns. property supplied_edges_roadmap ''nodes'' = Arr ns \<and> length ns = 2 \<and>
         property (ns ! 0) ''id'' = Str ''a'' \<and> property (ns ! 1) ''id'' = Str ''b'')"
proof -
  let ?ss = "[Str ''Read docs'', Str ''Build a CLI'']"
  let ?xs = "[Obj [(''id'', Str ''a'')], Obj [(''id'', Str ''b'')]]"
  have s1: "\<not> isArray (property learn_go_parsed ''nodes'')"
    by (simp add: learn_go_parsed_def)
  have s2: "property learn_go_parsed ''steps'' = Arr ?ss"
    by (simp add: learn_go_parsed_def)
  have h: "normalizeRoadmap learn_go_parsed = Inr learn_go_roadmap"
    by code_simp
  have d: "nat_to_string (0 + 1) = ''1''" "nat_to_string (1 + 1) = ''2''"
    by code_simp+
  have n: "property supplied_edges_parsed ''nodes'' = Arr ?xs"
    by (simp add: supplied_edges_parsed_def)
  have g: "normalizeRoadmap supplied_edges_parsed = Inr supplied_edges_roadmap"
    by code_simp
  from step_ids [of learn_go_parsed ?ss learn_go_roadmap] s1 s2 h
  have "\<exists>ns. property learn_go_roadmap ''nodes'' = Arr ns \<and> length ns = length ?ss \<and>
      (\<forall>i<length ?ss. property (ns ! i) ''id'' = Str (''step_'' @ nat_to_string (i + 1)))"
    by blast
  then obtain ns where ns: "property learn_go_roadmap ''nodes'' = Arr ns"
    and len: "length ns = 2"
    and el: "\<forall>i<2. property (ns ! i) ''id'' = Str (''step_'' @ nat_to_string (i + 1))"
    by auto
  from el [rule_format, of 0] el [rule_format, of 1]
  have "property (ns ! 0) ''id'' = Str ''step_1''" and "property (ns ! 1) ''id'' = Str ''step_2''"
    unfolding d by simp_all
  with ns len
  have a: "\<exists>ns. property learn_go_roadmap ''nodes'' = Arr ns \<and> length ns = 2 \<and>
         property (ns ! 0) ''id'' = Str ''step_1'' \<and> property (ns ! 1) ''id'' = Str ''step_2''"
    by blast
  from step_ids [of supplied_edges_parsed _ supplied_edges_roadmap ?xs] n g
  have "\<exists>ns. property supplied_edges_roadmap ''nodes'' = Arr ns \<and> length ns = length ?xs \<and>
      (\<forall>i<length ?xs. property (ns ! i) ''id'' = property (?xs ! i) ''id'')"
    by blast
  then obtain ms where ms: "property supplied_edges_roadmap ''nodes'' = Arr ms"
    and mlen: "length ms = 2"
    and mel: "\<forall>i<2. property (ms ! i) ''id'' = property (?xs ! i) ''id''"
    by auto
  from mel [rule_format, of 0] mel [rule_format, of 1]
  have "property (ms ! 0) ''id'' = Str ''a''" and "property (ms ! 1) ''id'' = Str ''b''"
    by simp_all
  with ms mlen
  have b: "\<exists>ns. property supplied_edges_roadmap ''nodes'' = Arr ns \<and> length ns = 2 \<and>
         property (ns ! 0) ''id'' = Str ''a'' \<and> property (ns ! 1) ''id'' = Str ''b''"
    by blast
  from s1 s2 h a n g b show ?thesis by blast
qed

subsection \<open>The scalar fields of the result\<close>

text \<open>
  Claim C6, as amended. For every input that is not nullish and whose \<^verbatim>\<open>nodes\<close> and
  \<^verbatim>\<open>steps\<close> arrays hold no \<^verbatim>\<open>null\<close> entry (the empty object is one),
  \<open>normalizeRoadmap\<close> returns a Roadmap; and in every Roadmap it returns, each of
  \<^verbatim>\<open>title\<close>, \<^verbatim>\<open>description\<close>, \<^verbatim>\<open>estimatedTotalDuration\<close>, \<^verbatim>\<open>difficulty\<close> and
  \<^verbatim>\<open>category\<close> is populated: with the input's own value when that value is truthy, with
  the documented default otherwise. So the field is a string whenever the input's field
  is absent, falsy or a string; a truthy value that is not a string is kept as it is.
\<close>

theorem scalar_fields_populated:
  "(\<not> nullish raw \<and>
    (\<forall>xs. property raw ''nodes'' = Arr xs \<longrightarrow> (\<forall>x\<in>set xs. \<not> nullish x)) \<and>
    (\<forall>ss. property raw ''steps'' = Arr ss \<longrightarrow> (\<forall>s\<in>set ss. \<not> nullish s)) \<longrightarrow>
      (\<exists>r. normalizeRoadmap raw = Inr r)) \<and>
   (normalizeRoadmap raw = Inr r \<and> (k, d) \<in> set scalar_defaults \<longrightarrow>
      property r k = (if truthy (property raw k) then property raw k else Str d) \<and>
      property r k \<noteq> Undefined \<and>
      (\<not> truthy (property raw k) \<or> isString (property raw k) \<longrightarrow> isString (property r k)))"
proof (intro conjI impI)
  assume "\<not> nullish raw \<and>
    (\<forall>xs. property raw ''nodes'' = Arr xs \<longrightarrow> (\<forall>x\<in>set xs. \<not> nullish x)) \<and>
    (\<forall>ss. property raw ''steps'' = Arr ss \<longrightarrow> (\<forall>s\<in>set ss. \<not> nullish s))"
  then show "\<exists>r. normalizeRoadmap raw = Inr r"
    using normalize_returns [of raw] by blast
next
  assume a: "normalizeRoadmap raw = Inr r \<and> (k, d) \<in> set scalar_defaults"
  then have f: "property r k = or_else (property raw k) (Str d)"
    by (simp add: scalar_field)
  then show "property r k = (if truthy (property raw k) then property raw k else Str d)"
    by (simp add: or_else_def)
  from f show "property r k \<noteq> Undefined"
    by (simp add: or_else_cases)
  assume "\<not> truthy (property raw k) \<or> isString (property raw k)"
  with f show "isString (property r k)"
    by (simp add: or_else_cases)
qed

text \<open>
  The claim as the specification states it fails on \<^verbatim>\<open>{"title": 42}\<close>: the title of
  the Roadmap is the number 42, not the default and not a string.
\<close>

theorem scalar_fields_counterexample:
  "normalizeRoadmap (Obj [(''title'', Num 42)]) =
     Inr (Obj [(''title'', Num 42),
               (''description'', Str []),
               (''nodes'', Arr []),
               (''edges'', Arr []),
               (''estimatedTotalDuration'', Str []),
               (''difficulty'', Str ''beginner''),
               (''category'', Str ''general'')]) \<and>
   \<not> isString (Num 42) \<and> Num 42 \<noteq> Str ''AI Generated Roadmap''"
  by code_simp

theorem scalar_fields_populated_witness:
  "normalizeRoadmap (Obj []) = Inr default_roadmap \<and>
   property default_roadmap ''title'' = Str ''AI Generated Roadmap'' \<and>
   property default_roadmap ''description'' = Str [] \<and>
   property default_roadmap ''estimatedTotalDuration'' = Str [] \<and>
   property default_roadmap ''difficulty'' = Str ''beginner'' \<and>
   property default_roadmap ''category'' = Str ''general'' \<and>
   normalizeRoadmap learn_go_parsed = Inr learn_go_roadmap \<and>
   property learn_go_roadmap ''title'' = Str ''Learn Go'' \<and>
   isString (property learn_go_roadmap ''title'')"
proof -
  have "\<not> nullish (Obj [])" and "\<forall>xs. property (Obj []) ''nodes'' = Arr xs \<longrightarrow> (\<forall>x\<in>set xs. \<not> nullish x)"
    and "\<forall>ss. property (Obj []) ''steps'' = Arr ss \<longrightarrow> (\<forall>s\<in>set ss. \<not> nullish s)"
    by simp_all
  with scalar_fields_populated [of "Obj []"] obtain r where r: "normalizeRoadmap (Obj []) = Inr r"
    by blast
  have f: "property r k = Str d" if "(k, d) \<in> set scalar_defaults" for k d
    using scalar_fields_populated [of "Obj []" r k d] r that by simp
  have h0: "normalizeRoadmap (Obj []) = Inr default_roadmap"
    by code_simp
  with r have "r = default_roadmap" by simp
  with f have g: "property default_roadmap k = Str d" if "(k, d) \<in> set scalar_defaults" for k d
    using that by simp
  have h: "normalizeRoadmap learn_go_parsed = Inr learn_go_roadmap"
    by code_simp
  have t: "property learn_go_parsed ''title'' = Str ''Learn Go''"
    by (simp add: learn_go_parsed_def)
  have m: "(''title'', ''AI Generated Roadmap'') \<in> set scalar_defaults"
    by (simp add: scalar_defaults_def)
  from scalar_fields_populated [of learn_go_parsed learn_go_roadmap "''title''"
      "''AI Generated Roadmap''"] h m t
  have u: "property learn_go_roadmap ''title'' = Str ''Learn Go''"
    and v: "isString (property learn_go_roadmap ''title'')"
    by simp_all
  from h0 h u v g [of "''title''" "''AI Generated Roadmap''"] g [of "''description''" "[]"]
    g [of "''estimatedTotalDuration''" "[]"] g [of "''difficulty''" "''beginner''"]
    g [of "''category''" "''general''"]
  show ?thesis by (simp add: scalar_defaults_def)
qed

section \<open>Properties of the handler\<close>

text \<open>
  Claim C9. \<open>normalizeRoadmap\<close> does not fail for want of nodes: for an input (not nullish)
  whose \<^verbatim>\<open>nodes\<close> is the empty array, or is no array while \<^verbatim>\<open>steps\<close> is the empty array
  or no array either, it returns a Roadmap with no nodes and no edges. It is the handler
  that refuses such a Roadmap: it answers with status 500 and the error
  \<^verbatim>\<open>AI returned no usable steps\<close>, and whenever it sends a Roadmap, that Roadmap has at
  least one node. The handler stores nothing in either case.
\<close>

theorem zero_nodes_fail_in_handler:
  "(\<not> nullish raw \<and>
    (property raw ''nodes'' = Arr [] \<or>
     (\<not> isArray (property raw ''nodes'') \<and>
      (property raw ''steps'' = Arr [] \<or> \<not> isArray (property raw ''steps'')))) \<longrightarrow>
      (\<exists>r. normalizeRoadmap raw = Inr r \<and> property r ''nodes'' = Arr [] \<and>
           property r ''edges'' = Arr [])) \<and>
   (repairJson parse aiText = Inr parsed \<and> normalizeRoadmap parsed = Inr r \<and>
    property r ''nodes'' = Arr [] \<longrightarrow>
      generate_roadmap parse aiText = Failed 500 (Error ''AI returned no usable steps'')) \<and>
   (generate_roadmap parse aiText = Sent body \<longrightarrow>
      (\<exists>p r n ns. repairJson parse aiText = Inr p \<and> normalizeRoadmap p = Inr r \<and>
                  property r ''nodes'' = Arr (n # ns) \<and> body = Obj [(''roadmap'', r)]))"
proof (intro conjI impI)
  assume a: "\<not> nullish raw \<and>
    (property raw ''nodes'' = Arr [] \<or>
     (\<not> isArray (property raw ''nodes'') \<and>
      (property raw ''steps'' = Arr [] \<or> \<not> isArray (property raw ''steps''))))"
  then have "normalizeRoadmap raw = Inr (roadmap_of raw [])"
    by (intro normalize_no_steps) simp_all
  then show "\<exists>r. normalizeRoadmap raw = Inr r \<and> property r ''nodes'' = Arr [] \<and>
      property r ''edges'' = Arr []"
    by (simp add: roadmap_of_props chain_from_def)
next
  assume "repairJson parse aiText = Inr parsed \<and> normalizeRoadmap parsed = Inr r \<and>
    property r ''nodes'' = Arr []"
  then show "generate_roadmap parse aiText = Failed 500 (Error ''AI returned no usable steps'')"
    by (simp add: handler_zero_nodes)
next
  assume "generate_roadmap parse aiText = Sent body"
  then show "\<exists>p r n ns. repairJson parse aiText = Inr p \<and> normalizeRoadmap p = Inr r \<and>
      property r ''nodes'' = Arr (n # ns) \<and> body = Obj [(''roadmap'', r)]"
    by (rule handler_sent)
qed

theorem zero_nodes_fail_in_handler_witness:
  \<open>repairJson JSON_parse ''{"title":"Learn Go","steps":[]}'' =
     Inr (Obj [(''title'', Str ''Learn Go''), (''steps'', Arr [])]) \<and>
   normalizeRoadmap (Obj [(''title'', Str ''Learn Go''), (''steps'', Arr [])]) =
     Inr (Obj [(''title'', Str ''Learn Go''),
               (''description'', Str []),
               (''nodes'', Arr []),
               (''edges'', Arr []),
               (''estimatedTotalDuration'', Str []),
               (''difficulty'', Str ''beginner''),
               (''category'', Str ''general'')]) \<and>
   generate_roadmap JSON_parse ''{"title":"Learn Go","steps":[]}'' =
     Failed 500 (Error ''AI returned no usable steps'') \<and>
   generate_roadmap JSON_parse learn_go_text = Sent (Obj [(''roadmap'', learn_go_roadmap)]) \<and>
   property learn_go_roadmap ''nodes'' \<noteq> Arr []\<close>
proof -
  let ?raw = "Obj [(''title'', Str ''Learn Go''), (''steps'', Arr [])]"
  let ?r = "Obj [(''title'', Str ''Learn Go''),
               (''description'', Str []),
               (''nodes'', Arr []),
               (''edges'', Arr []),
               (''estimatedTotalDuration'', Str []),
               (''difficulty'', Str ''beginner''),
               (''category'', Str ''general'')]"
  have p: \<open>repairJson JSON_parse ''{"title":"Learn Go","steps":[]}'' = Inr ?raw\<close>
    by code_simp
  have c: "\<not> nullish ?raw \<and>
    (property ?raw ''nodes'' = Arr [] \<or>
     (\<not> isArray (property ?raw ''nodes'') \<and>
      (property ?raw ''steps'' = Arr [] \<or> \<not> isArray (property ?raw ''steps''))))"
    by simp
  note t = zero_nodes_fail_in_handler [where parse = JSON_parse]
  from t [of ?raw] c obtain r where r: "normalizeRoadmap ?raw = Inr r"
    and n: "property r ''nodes'' = Arr []"
    by blast
  have "normalizeRoadmap ?raw = Inr ?r" by code_simp
  with r have e: "r = ?r" by simp
  from t [where aiText = \<open>''{"title":"Learn Go","steps":[]}''\<close> and parsed = ?raw and r = r] p r n
  have f: \<open>generate_roadmap JSON_parse ''{"title":"Learn Go","steps":[]}'' =
      Failed 500 (Error ''AI returned no usable steps'')\<close>
    by blast
  have s: "generate_roadmap JSON_parse learn_go_text = Sent (Obj [(''roadmap'', learn_go_roadmap)])"
    by code_simp
  from t [where aiText = learn_go_text and body = "Obj [(''roadmap'', learn_go_roadmap)]"] s
  have "property learn_go_roadmap ''nodes'' \<noteq> Arr []"
    by auto
  with p r e f s show ?thesis by simp
qed

section \<open>Properties of the Repairer\<close>

subsection \<open>What the regular expression matches\<close>

lemma star_none: "CHR ''}'' \<notin> set s \<Longrightarrow> star_then_close s = None"
  by (induction s) auto

lemma star_then_close_last:
  "CHR ''}'' \<notin> set post \<Longrightarrow> star_then_close (mid @ CHR ''}'' # post) = Some (mid @ [CHR ''}''])"
  by (induction mid) (auto simp: star_none)

lemma regex_match_none: "CHR ''}'' \<notin> set s \<Longrightarrow> regex_match s = None"
  by (induction s) (auto simp: star_none)

lemma regex_match_span:
  "CHR ''{'' \<notin> set pre \<Longrightarrow> CHR ''}'' \<notin> set post \<Longrightarrow>
   regex_match (pre @ CHR ''{'' # mid @ CHR ''}'' # post) = Some (CHR ''{'' # mid @ [CHR ''}''])"
  by (induction pre) (auto simp: star_then_close_last)

lemma star_some: "CHR ''}'' \<in> set s \<Longrightarrow> \<exists>m. star_then_close s = Some m"
  by (induction s) (auto split: option.splits)

lemma regex_match_None_iff:
  "regex_match s = None \<longleftrightarrow>
   \<not> (\<exists>pre mid post. s = pre @ CHR ''{'' # mid @ CHR ''}'' # post)"
proof
  assume n: "regex_match s = None"
  show "\<not> (\<exists>pre mid post. s = pre @ CHR ''{'' # mid @ CHR ''}'' # post)"
  proof
    assume "\<exists>pre mid post. s = pre @ CHR ''{'' # mid @ CHR ''}'' # post"
    then obtain pre mid post where t: "s = pre @ CHR ''{'' # mid @ CHR ''}'' # post" by blast
    have "regex_match (pre @ CHR ''{'' # mid @ CHR ''}'' # post) \<noteq> None"
    proof (induction pre)
      case Nil
      obtain m where "star_then_close (mid @ CHR ''}'' # post) = Some m"
        using star_some [of "mid @ CHR ''}'' # post"] by auto
      then show ?case by simp
    next
      case (Cons c pre)
      then show ?case by (auto split: option.splits)
    qed
    with n t show False by simp
  qed
next
  assume d: "\<not> (\<exists>pre mid post. s = pre @ CHR ''{'' # mid @ CHR ''}'' # post)"
  have "regex_match s \<noteq> None \<Longrightarrow> \<exists>pre mid post. s = pre @ CHR ''{'' # mid @ CHR ''}'' # post"
  proof (induction s)
    case Nil
    then show ?case by simp
  next
    case (Cons c cs)
    show ?case
    proof (cases "c = CHR ''{'' \<and> CHR ''}'' \<in> set cs")
      case True
      then obtain mid post where "cs = mid @ CHR ''}'' # post"
        by (meson split_list)
      with True have "c # cs = [] @ CHR ''{'' # mid @ CHR ''}'' # post" by simp
      then show ?thesis by blast
    next
      case False
      with Cons.prems have "regex_match cs \<noteq> None"
        by (auto simp: star_none split: if_splits option.splits)
      from Cons.IH [OF this] obtain pre mid post where "cs = pre @ CHR ''{'' # mid @ CHR ''}'' # post"
        by blast
      then have "c # cs = (c # pre) @ CHR ''{'' # mid @ CHR ''}'' # post" by simp
      then show ?thesis by blast
    qed
  qed
  with d show "regex_match s = None" by blast
qed

lemma brace_span_exists:
  assumes "s = a @ CHR ''{'' # b @ CHR ''}'' # c"
  shows "\<exists>pre mid post. s = pre @ CHR ''{'' # mid @ CHR ''}'' # post \<and>
           CHR ''{'' \<notin> set pre \<and> CHR ''}'' \<notin> set post"
proof -
  from assms have "CHR ''{'' \<in> set s" by simp
  then obtain pre zs where s: "s = pre @ CHR ''{'' # zs" and pre: "CHR ''{'' \<notin> set pre"
    by (meson split_list_first)
  from s assms have "pre @ CHR ''{'' # zs = a @ CHR ''{'' # b @ CHR ''}'' # c" by simp
  then obtain us where
    "pre = a @ us \<and> us @ CHR ''{'' # zs = CHR ''{'' # b @ CHR ''}'' # c \<or>
     pre @ us = a \<and> CHR ''{'' # zs = us @ CHR ''{'' # b @ CHR ''}'' # c"
    by (auto simp: append_eq_append_conv2)
  then have "CHR ''}'' \<in> set zs"
  proof
    assume h: "pre = a @ us \<and> us @ CHR ''{'' # zs = CHR ''{'' # b @ CHR ''}'' # c"
    with pre have "us = []" by (cases us) auto
    with h show ?thesis by simp
  next
    assume h: "pre @ us = a \<and> CHR ''{'' # zs = us @ CHR ''{'' # b @ CHR ''}'' # c"
    then show ?thesis by (cases us) auto
  qed
  then obtain mid post where "zs = mid @ CHR ''}'' # post" and "CHR ''}'' \<notin> set post"
    by (meson split_list_last)
  with s pre show ?thesis by blast
qed

lemma repairJson_direct: "parse s = Some v \<Longrightarrow> repairJson parse s = Inr v"
  by (simp add: repairJson_def)

lemma repairJson_span:
  assumes "parse s = None" and "s = pre @ CHR ''{'' # mid @ CHR ''}'' # post"
    and "CHR ''{'' \<notin> set pre" and "CHR ''}'' \<notin> set post"
  shows "repairJson parse s =
           (case parse (CHR ''{'' # mid @ [CHR ''}'']) of
              Some v \<Rightarrow> Inr v
            | None \<Rightarrow> Inl SyntaxError)"
  using assms by (simp add: repairJson_def regex_match_span)

lemma repairJson_errors:
  "repairJson parse s = Inl e \<longleftrightarrow>
     parse s = None \<and>
     (regex_match s = None \<and> e = Error ''No JSON found'' \<or>
      (\<exists>m. regex_match s = Some m \<and> parse m = None) \<and> e = SyntaxError)"
  by (auto simp: repairJson_def split: option.splits)

subsection \<open>What the repairer returns\<close>

text \<open>
  Claim C5. For every text \<open>s\<close> and every parser: when \<open>s\<close> parses, \<open>repairJson\<close> returns
  the parsed value; when it does not and \<open>s\<close> has a \<^verbatim>\<open>{\<close> with a \<^verbatim>\<open>}\<close> after it,
  \<open>s\<close> is some \<open>pre\<close>, then \<^verbatim>\<open>{\<close>, \<open>mid\<close>, \<^verbatim>\<open>}\<close>, then \<open>post\<close>, with no \<^verbatim>\<open>{\<close> in \<open>pre\<close>
  and no \<^verbatim>\<open>}\<close> in \<open>post\<close>, and \<open>repairJson\<close> returns what the parser makes of the span from
  that first \<^verbatim>\<open>{\<close> through that last \<^verbatim>\<open>}\<close>, or fails with the parser's SyntaxError. So
  a text \<open>stringify X\<close> that the parser reads back as \<open>X\<close> is repaired to \<open>X\<close>, and so is
  the text of an object inside a fenced block (the fenced text itself never parses: it
  starts with a backquote).
\<close>

theorem repair_returns:
  "(parse s = Some v \<longrightarrow> repairJson parse s = Inr v) \<and>
   (parse s = None \<and> s = pre @ CHR ''{'' # mid @ CHR ''}'' # post \<and>
    CHR ''{'' \<notin> set pre \<and> CHR ''}'' \<notin> set post \<longrightarrow>
      repairJson parse s =
        (case parse (CHR ''{'' # mid @ [CHR ''}'']) of
           Some v \<Rightarrow> Inr v
         | None \<Rightarrow> Inl SyntaxError)) \<and>
   (parse s = None \<and> s = a @ CHR ''{'' # b @ CHR ''}'' # c \<longrightarrow>
      (\<exists>pre mid post.
         s = pre @ CHR ''{'' # mid @ CHR ''}'' # post \<and>
         CHR ''{'' \<notin> set pre \<and> CHR ''}'' \<notin> set post \<and>
         repairJson parse s =
           (case parse (CHR ''{'' # mid @ [CHR ''}'']) of
              Some v \<Rightarrow> Inr v
            | None \<Rightarrow> Inl SyntaxError))) \<and>
   (parse (stringify X) = Some X \<longrightarrow> repairJson parse (stringify X) = Inr X) \<and>
   (parse (''```json\<newline>'' @ CHR ''{'' # body @ CHR ''}'' # ''\<newline>```'') = None \<and>
    parse (CHR ''{'' # body @ [CHR ''}'']) = Some X \<longrightarrow>
      repairJson parse (''```json\<newline>'' @ CHR ''{'' # body @ CHR ''}'' # ''\<newline>```'') = Inr X)"
proof (intro conjI impI)
  assume "parse s = Some v"
  then show "repairJson parse s = Inr v" by (rule repairJson_direct)
next
  assume "parse s = None \<and> s = pre @ CHR ''{'' # mid @ CHR ''}'' # post \<and>
    CHR ''{'' \<notin> set pre \<and> CHR ''}'' \<notin> set post"
  then show "repairJson parse s =
        (case parse (CHR ''{'' # mid @ [CHR ''}'']) of
           Some v \<Rightarrow> Inr v
         | None \<Rightarrow> Inl SyntaxError)"
    using repairJson_span [of parse s pre mid post] by blast
next
  assume h: "parse s = None \<and> s = a @ CHR ''{'' # b @ CHR ''}'' # c"
  then obtain pre mid post where d: "s = pre @ CHR ''{'' # mid @ CHR ''}'' # post"
    "CHR ''{'' \<notin> set pre" "CHR ''}'' \<notin> set post"
    using brace_span_exists [of s a b c] by blast
  with h repairJson_span [of parse s pre mid post]
  show "\<exists>pre mid post.
      s = pre @ CHR ''{'' # mid @ CHR ''}'' # post \<and>
      CHR ''{'' \<notin> set pre \<and> CHR ''}'' \<notin> set post \<and>
      repairJson parse s =
        (case parse (CHR ''{'' # mid @ [CHR ''}'']) of
           Some v \<Rightarrow> Inr v
         | None \<Rightarrow> Inl SyntaxError)"
    by blast
next
  assume "parse (stringify X) = Some X"
  then show "repairJson parse (stringify X) = Inr X" by (rule repairJson_direct)
next
  let ?fenced = "''```json\<newline>'' @ CHR ''{'' # body @ CHR ''}'' # ''\<newline>```''"
  assume a: "parse ?fenced = None \<and> parse (CHR ''{'' # body @ [CHR ''}'']) = Some X"
  have "CHR ''{'' \<notin> set ''```json\<newline>''" and "CHR ''}'' \<notin> set ''\<newline>```''"
    by simp_all
  from repairJson_span [OF _ refl this, of parse body] a
  show "repairJson parse ?fenced = Inr X" by simp
qed

theorem repair_returns_witness:
  \<open>JSON_parse learn_go_text = Some learn_go_parsed \<and>
   repairJson JSON_parse learn_go_text = Inr learn_go_parsed \<and>
   JSON_parse ''Plan: {"a":1} and {"b":2}. Done'' = None \<and>
   repairJson JSON_parse ''Plan: {"a":1} and {"b":2}. Done'' = Inl SyntaxError \<and>
   JSON_parse ''Here it is: {"title":"A","steps":[]} Enjoy!'' = None \<and>
   repairJson JSON_parse ''Here it is: {"title":"A","steps":[]} Enjoy!'' =
     Inr (Obj [(''title'', Str ''A''), (''steps'', Arr [])]) \<and>
   (\<exists>pre mid post.
      ''Here it is: {"title":"A","steps":[]} Enjoy!'' = pre @ CHR ''{'' # mid @ CHR ''}'' # post \<and>
      CHR ''{'' \<notin> set pre \<and> CHR ''}'' \<notin> set post \<and>
      repairJson JSON_parse ''Here it is: {"title":"A","steps":[]} Enjoy!'' =
        (case JSON_parse (CHR ''{'' # mid @ [CHR ''}'']) of
           Some v \<Rightarrow> Inr v
         | None \<Rightarrow> Inl SyntaxError)) \<and>
   JSON_stringify (Obj [(''title'', Str ''A''), (''steps'', Arr [])]) = ''{"title":"A","steps":[]}'' \<and>
   JSON_parse (JSON_stringify (Obj [(''title'', Str ''A''), (''steps'', Arr [])])) =
     Some (Obj [(''title'', Str ''A''), (''steps'', Arr [])]) \<and>
   repairJson JSON_parse (JSON_stringify (Obj [(''title'', Str ''A''), (''steps'', Arr [])])) =
     Inr (Obj [(''title'', Str ''A''), (''steps'', Arr [])]) \<and>
   JSON_parse ''```json\<newline>{"title":"A","steps":[]}\<newline>```'' = None \<and>
   repairJson JSON_parse ''```json\<newline>{"title":"A","steps":[]}\<newline>```'' =
     Inr (Obj [(''title'', Str ''A''), (''steps'', Arr [])])\<close>
proof -
  let ?X = "Obj [(''title'', Str ''A''), (''steps'', Arr [])]"
  have p1: "JSON_parse learn_go_text = Some learn_go_parsed" by code_simp
  have p2: \<open>JSON_parse ''Plan: {"a":1} and {"b":2}. Done'' = None\<close> by code_simp
  have p2': \<open>JSON_parse ''{"a":1} and {"b":2}'' = None\<close> by code_simp
  have p3: \<open>JSON_parse ''Here it is: {"title":"A","steps":[]} Enjoy!'' = None\<close> by code_simp
  have p3': \<open>JSON_parse ''{"title":"A","steps":[]}'' = Some ?X\<close> by code_simp
  have s4: \<open>JSON_stringify ?X = ''{"title":"A","steps":[]}''\<close> by code_simp
  have p5: \<open>JSON_parse ''```json\<newline>{"title":"A","steps":[]}\<newline>```'' = None\<close> by code_simp
  note t = repair_returns [where parse = JSON_parse and stringify = JSON_stringify and X = ?X]
  have r1: "repairJson JSON_parse learn_go_text = Inr learn_go_parsed"
    using t [where s = learn_go_text and v = learn_go_parsed] p1 by blast
  have r2: \<open>repairJson JSON_parse ''Plan: {"a":1} and {"b":2}. Done'' = Inl SyntaxError\<close>
    using t [where s = \<open>''Plan: {"a":1} and {"b":2}. Done''\<close> and pre = "''Plan: ''"
        and mid = \<open>''"a":1} and {"b":2''\<close> and post = "''. Done''"] p2 p2'
    by simp
  have r3: \<open>repairJson JSON_parse ''Here it is: {"title":"A","steps":[]} Enjoy!'' = Inr ?X\<close>
    using t [where s = \<open>''Here it is: {"title":"A","steps":[]} Enjoy!''\<close> and pre = "''Here it is: ''"
        and mid = \<open>''"title":"A","steps":[]''\<close> and post = "'' Enjoy!''"] p3 p3'
    by simp
  have r3': \<open>\<exists>pre mid post.
      ''Here it is: {"title":"A","steps":[]} Enjoy!'' = pre @ CHR ''{'' # mid @ CHR ''}'' # post \<and>
      CHR ''{'' \<notin> set pre \<and> CHR ''}'' \<notin> set post \<and>
      repairJson JSON_parse ''Here it is: {"title":"A","steps":[]} Enjoy!'' =
        (case JSON_parse (CHR ''{'' # mid @ [CHR ''}'']) of
           Some v \<Rightarrow> Inr v
         | None \<Rightarrow> Inl SyntaxError)\<close>
    using t [where s = \<open>''Here it is: {"title":"A","steps":[]} Enjoy!''\<close> and a = "''Here it is: ''"
        and b = \<open>''"title":"A","steps":[]''\<close> and c = "'' Enjoy!''"] p3
    by simp
  have r4: "repairJson JSON_parse (JSON_stringify ?X) = Inr ?X"
    using t s4 p3' by simp
  have r5: \<open>repairJson JSON_parse ''```json\<newline>{"title":"A","steps":[]}\<newline>```'' = Inr ?X\<close>
    using t [where body = \<open>''"title":"A","steps":[]''\<close>] p5 p3' by simp
  have p4: "JSON_parse (JSON_stringify ?X) = Some ?X"
    using s4 p3' by simp
  from p1 r1 p2 r2 p3 r3 r3' s4 p4 r4 p5 r5 show ?thesis
    by - (intro conjI; assumption)
qed

subsection \<open>When the repairer fails\<close>

text \<open>
  Claim C3, as amended. \<open>repairJson\<close> fails exactly when the text does not parse and, in
  addition, either the regular expression finds no span (no \<^verbatim>\<open>{\<close> with a \<^verbatim>\<open>}\<close> after
  it) or the span does not parse. In the first case the error is
  \<^verbatim>\<open>Error('No JSON found')\<close>, a fixed message that holds no part of the text; in the
  second it is the SyntaxError the parser raises on the span. For the text
  \<^verbatim>\<open>Sorry, I can't help with that.\<close> it raises \<^verbatim>\<open>Error('No JSON found')\<close>.
\<close>

theorem repair_fails:
  "(repairJson parse s = Inl e \<longleftrightarrow>
      parse s = None \<and>
      (regex_match s = None \<and> e = Error ''No JSON found'' \<or>
       (\<exists>m. regex_match s = Some m \<and> parse m = None) \<and> e = SyntaxError)) \<and>
   (regex_match s = None \<longleftrightarrow>
      \<not> (\<exists>pre mid post. s = pre @ CHR ''{'' # mid @ CHR ''}'' # post)) \<and>
   repairJson JSON_parse ''Sorry, I can't help with that.'' = Inl (Error ''No JSON found'')"
proof (intro conjI)
  show "repairJson parse s = Inl e \<longleftrightarrow>
      parse s = None \<and>
      (regex_match s = None \<and> e = Error ''No JSON found'' \<or>
       (\<exists>m. regex_match s = Some m \<and> parse m = None) \<and> e = SyntaxError)"
    by (rule repairJson_errors)
  show "regex_match s = None \<longleftrightarrow>
      \<not> (\<exists>pre mid post. s = pre @ CHR ''{'' # mid @ CHR ''}'' # post)"
    by (rule regex_match_None_iff)
  show "repairJson JSON_parse ''Sorry, I can't help with that.'' = Inl (Error ''No JSON found'')"
    by code_simp
qed

text \<open>
  The claim as the specification states it fails twice. The text \<^verbatim>\<open>[]\<close> has no span,
  yet \<open>repairJson\<close> returns its value: the direct parse comes first. And two different
  texts without a span raise one and the same \<^verbatim>\<open>Error('No JSON found')\<close>, which therefore
  carries neither.
\<close>

theorem repair_fails_counterexample:
  "regex_match ''[]'' = None \<and>
   repairJson JSON_parse ''[]'' = Inr (Arr []) \<and>
   repairJson JSON_parse ''Sorry, I can't help with that.'' = Inl (Error ''No JSON found'') \<and>
   repairJson JSON_parse ''No.'' = Inl (Error ''No JSON found'') \<and>
   ''Sorry, I can't help with that.'' \<noteq> ''No.''"
  by code_simp

theorem repair_fails_witness:
  \<open>JSON_parse ''{"a":1,}'' = None \<and>
   regex_match ''{"a":1,}'' = Some ''{"a":1,}'' \<and>
   repairJson JSON_parse ''{"a":1,}'' = Inl SyntaxError \<and>
   JSON_parse ''No.'' = None \<and>
   regex_match ''No.'' = None \<and>
   repairJson JSON_parse ''No.'' = Inl (Error ''No JSON found'')\<close>
proof -
  have p1: \<open>JSON_parse ''{"a":1,}'' = None\<close> by code_simp
  have m1: \<open>regex_match ''{"a":1,}'' = Some ''{"a":1,}''\<close> by code_simp
  have p2: "JSON_parse ''No.'' = None" by code_simp
  have m2: "regex_match ''No.'' = None" by code_simp
  from repair_fails [of JSON_parse \<open>''{"a":1,}''\<close> SyntaxError] p1 m1
  have r1: \<open>repairJson JSON_parse ''{"a":1,}'' = Inl SyntaxError\<close>
    by simp
  from repair_fails [of JSON_parse "''No.''" "Error ''No JSON found''"] p2 m2
  have r2: "repairJson JSON_parse ''No.'' = Inl (Error ''No JSON found'')"
    by simp
  from p1 m1 r1 p2 m2 r2 show ?thesis by simp
qed

end
